theory Spec2Isabelle
  imports Main "HOL-Library.AList" "HOL-Library.Char_ord" "HOL-Library.List_Lexorder"
begin

section \<open>Python values used by the scripts\<close>

text \<open>
  Strings are \<^typ>\<open>string\<close>, read as the UTF-8 bytes of the Python \<open>str\<close>; the order
  \<open><\<close> on them (lexicographic, characters by code) is Python's \<open><\<close> on \<open>str\<close>.
  An exception is a value of \<open>error\<close>; a function that can raise returns \<open>error + 'a\<close>.
\<close>

datatype error =
    IndexError
  | KeyError string
  | OverflowError
  | RuntimeError string
  | RequestException string
  | HTTPError string
  | ImageError string

text \<open>\<open>str(e)\<close>, as \<open>process_events\<close> stores it in \<open>image_jpg_error\<close>.\<close>

fun str_error :: "error \<Rightarrow> string" where
  "str_error IndexError = ''list index out of range''"
| "str_error (KeyError k) = k"
| "str_error OverflowError = ''date value out of range''"
| "str_error (RuntimeError m) = m"
| "str_error (RequestException m) = m"
| "str_error (HTTPError m) = m"
| "str_error (ImageError m) = m"

text \<open>
  \<open>xs[i]\<close> on a Python list: \<open>IndexError\<close> outside \<open>-len(xs) \<le> i < len(xs)\<close>, and
  \<open>xs[-k]\<close> is the \<open>k\<close>-th element from the end.
\<close>

definition py_index :: "'a list \<Rightarrow> int \<Rightarrow> error + 'a" where
  "py_index xs i =
     (if 0 \<le> i then (if nat i < length xs then Inr (xs ! nat i) else Inl IndexError)
      else if nat (- i) \<le> length xs then Inr (xs ! (length xs - nat (- i)))
      else Inl IndexError)"

text \<open>
  \<open>str.isspace\<close> on the ASCII range: tab, line feed, vertical tab, form feed, carriage
  return, the four separators 0x1c..0x1f and the blank.
\<close>

definition isspace :: "char \<Rightarrow> bool" where
  "isspace c = ((of_char c :: nat) \<in> {9, 10, 11, 12, 13, 28, 29, 30, 31, 32})"

definition strip :: "string \<Rightarrow> string" where
  "strip s = rev (dropWhile isspace (rev (dropWhile isspace s)))"

text \<open>
  \<open>str.split()\<close> with no argument: the maximal runs of non-blank characters, in order.
  The first argument is the token being read.
\<close>

fun split_from :: "string \<Rightarrow> string \<Rightarrow> string list" where
  "split_from cur [] = (if cur = [] then [] else [cur])"
| "split_from cur (c # cs) =
     (if isspace c then (if cur = [] then split_from [] cs else cur # split_from [] cs)
      else split_from (cur @ [c]) cs)"

definition split :: "string \<Rightarrow> string list" where
  "split s = split_from [] s"

text \<open>\<open>s.startswith(pref)\<close>.\<close>

definition startswith :: "string \<Rightarrow> string \<Rightarrow> bool" where
  "startswith s pref = (take (length pref) s = pref)"

section \<open>Folder of an event date\<close>

definition months :: "(string \<times> string) list" where
  "months = [(''Jan'', ''01''), (''Feb'', ''02''), (''Mar'', ''03''), (''Apr'', ''04''),
             (''May'', ''05''), (''Jun'', ''06''), (''Jul'', ''07''), (''Aug'', ''08''),
             (''Sep'', ''09''), (''Oct'', ''10''), (''Nov'', ''11''), (''Dec'', ''12'')]"

text \<open>
  \<open>month_folder_from_date\<close> of \<open>bulletin_assets_with_prune.py\<close>: the body of its \<open>try\<close>,
  then the function with its \<open>except Exception\<close>. The month is looked up with
  \<open>months.get(mon, '00')\<close>.
\<close>

definition month_folder_from_date_try :: "string \<Rightarrow> error + string" where
  "month_folder_from_date_try datestr =
     (let parts = split (strip datestr) in
      case py_index parts (- 1) of
        Inl e \<Rightarrow> Inl e
      | Inr year \<Rightarrow>
          (case py_index parts 2 of
             Inl e \<Rightarrow> Inl e
           | Inr mon \<Rightarrow>
               Inr (year @ ''/'' @ (case map_of months mon of Some m \<Rightarrow> m | None \<Rightarrow> ''00''))))"

definition month_folder_from_date :: "string \<Rightarrow> string" where
  "month_folder_from_date datestr =
     (case month_folder_from_date_try datestr of Inl e \<Rightarrow> ''undated'' | Inr f \<Rightarrow> f)"



section \<open>Timestamps\<close>

text \<open>Decimal rendering of a number, and \<open>%0wd\<close> padding.\<close>

definition digit_char :: "nat \<Rightarrow> char" where
  "digit_char d = char_of (48 + d)"

fun str_nat :: "nat \<Rightarrow> string" where
  "str_nat n = (if n < 10 then [digit_char n] else str_nat (n div 10) @ [digit_char (n mod 10)])"

declare str_nat.simps [simp del]

definition str_int :: "int \<Rightarrow> string" where
  "str_int i = (if i < 0 then ''-'' @ str_nat (nat (- i)) else str_nat (nat i))"

definition zero_pad :: "nat \<Rightarrow> nat \<Rightarrow> string" where
  "zero_pad w n = replicate (w - length (str_nat n)) (CHR ''0'') @ str_nat n"

text \<open>
  A naive \<open>datetime.datetime\<close>, as \<open>utcnow()\<close> returns it. The calendar arithmetic is that
  of the \<open>datetime\<close> module: proleptic Gregorian ordinals, day 1 being 0001-01-01.
\<close>

record datetime =
  year :: nat
  month :: nat
  day :: nat
  hour :: nat
  minute :: nat
  second :: nat
  microsecond :: nat

definition is_leap :: "nat \<Rightarrow> bool" where
  "is_leap y = (y mod 4 = 0 \<and> (y mod 100 \<noteq> 0 \<or> y mod 400 = 0))"

definition days_in_month :: "nat \<Rightarrow> nat \<Rightarrow> nat" where
  "days_in_month y m =
     (if m = 2 then (if is_leap y then 29 else 28)
      else if m \<in> {4, 6, 9, 11} then 30 else 31)"

definition days_before_month :: "nat \<Rightarrow> nat \<Rightarrow> nat" where
  "days_before_month y m = (\<Sum>k \<leftarrow> [1 ..< m]. days_in_month y k)"

definition days_before_year :: "nat \<Rightarrow> nat" where
  "days_before_year y =
     (let p = y - 1 in p * 365 + p div 4 - p div 100 + p div 400)"

definition toordinal :: "datetime \<Rightarrow> nat" where
  "toordinal t = days_before_year (year t) + days_before_month (year t) (month t) + day t"

definition MAXORDINAL :: nat where
  "MAXORDINAL = 3652059"

text \<open>
  \<open>date.fromordinal\<close>: the year from the 400, 100, 4 and 1 year cycles, then the month
  from the estimate \<open>(n + 50) >> 5\<close>, corrected downwards when it overshoots.
\<close>

definition fromordinal :: "nat \<Rightarrow> nat \<times> nat \<times> nat" where
  "fromordinal n =
     (let n0 = n - 1;
          n400 = n0 div 146097; r400 = n0 mod 146097;
          n100 = r400 div 36524; r100 = r400 mod 36524;
          n4 = r100 div 1461; r4 = r100 mod 1461;
          n1 = r4 div 365; r1 = r4 mod 365;
          y = n400 * 400 + 1 + n100 * 100 + n4 * 4 + n1
      in if n1 = 4 \<or> n100 = 4 then (y - 1, 12, 31)
         else
           let m = (r1 + 50) div 32;
               preceding = days_before_month y m
           in if preceding > r1
              then (y, m - 1, Suc (r1 - (preceding - days_in_month y (m - 1))))
              else (y, m, Suc (r1 - preceding)))"

text \<open>
  \<open>t - datetime.timedelta(days=n)\<close>: \<open>timedelta\<close> refuses more than 999999999 days, and the
  difference must be a date of the years 1 to 9999. The time of day is kept.
\<close>

definition minus_days :: "datetime \<Rightarrow> int \<Rightarrow> error + datetime" where
  "minus_days t n =
     (if \<bar>n\<bar> > 999999999 then Inl OverflowError
      else let o' = int (toordinal t) - n in
        if 0 < o' \<and> o' \<le> int MAXORDINAL then
          (case fromordinal (nat o') of
             (y, m, d) \<Rightarrow> Inr (t\<lparr>year := y, month := m, day := d\<rparr>))
        else Inl OverflowError)"

text \<open>\<open>t.replace(microsecond=0).isoformat() + "Z"\<close>.\<close>

definition isoformat_Z :: "datetime \<Rightarrow> string" where
  "isoformat_Z t =
     zero_pad 4 (year t) @ ''-'' @ zero_pad 2 (month t) @ ''-'' @ zero_pad 2 (day t) @ ''T'' @
     zero_pad 2 (hour t) @ '':'' @ zero_pad 2 (minute t) @ '':'' @ zero_pad 2 (second t) @ ''Z''"

definition now_iso :: "datetime \<Rightarrow> string" where
  "now_iso utcnow = isoformat_Z (utcnow\<lparr>microsecond := 0\<rparr>)"

section \<open>Events, asset records and the manifest\<close>

text \<open>
  An event and an asset record are JSON objects whose values are strings or \<open>null\<close>;
  a Python \<open>dict\<close> is an association list in insertion order, read with \<^const>\<open>map_of\<close>,
  written with \<^const>\<open>AList.update\<close> (in place when the key exists, appended otherwise)
  and popped with \<^const>\<open>AList.delete\<close>. The manifest is its \<open>"images"\<close> dictionary,
  from repository path to asset record.
\<close>

datatype jvalue = Null | Str string

type_synonym jobject = "(string \<times> jvalue) list"

type_synonym manifest = "(string \<times> jobject) list"

text \<open>\<open>d.get(k)\<close>, the truth value of a JSON value, and \<open>v or ""\<close>.\<close>

definition py_get :: "jobject \<Rightarrow> string \<Rightarrow> jvalue" where
  "py_get d k = (case map_of d k of None \<Rightarrow> Null | Some v \<Rightarrow> v)"

fun truthy :: "jvalue \<Rightarrow> bool" where
  "truthy Null = False"
| "truthy (Str s) = (s \<noteq> [])"

fun or_empty :: "jvalue \<Rightarrow> string" where
  "or_empty Null = []"
| "or_empty (Str s) = s"

section \<open>The environment: credential, network and libraries\<close>

text \<open>
  Every call of \<open>requests\<close> is a \<open>request\<close>; the remote side answers it from a state of its
  own, of any type \<open>'s\<close>, and moves to a new state. \<open>Raised m\<close> is a call that raised (no
  connection, timeout, a body that is not JSON where \<open>.json()\<close> is read), \<open>m\<close> being the
  text of the exception; \<open>Reply code text sha\<close> is a response with its status code, its
  body and the \<open>"sha"\<close> member of its JSON body.
\<close>

datatype request =
    GetUrl string
  | GetRawManifest
  | GetContents string
  | PutContents string string string "string option"
  | DeleteContents string string string

datatype response = Raised string | Reply nat string "string option"

text \<open>
  The environment of a run: the variable \<open>GITHUB_TOKEN\<close>, the remote side, and the
  library functions the scripts call (\<open>to_jpg_bytes\<close> stands for the Pillow pipeline, with
  \<open>Inl\<close> the text of the exception it raised; \<open>raise_for_status_text\<close> is the text of the
  \<open>HTTPError\<close> that \<open>raise_for_status\<close> raises for a status code and a URL).
\<close>

record 's env =
  GITHUB_TOKEN :: "string option"
  respond :: "request \<Rightarrow> 's \<Rightarrow> response \<times> 's"
  to_jpg_bytes :: "string \<Rightarrow> string + string"
  slugify :: "string \<Rightarrow> string"
  md5_hexdigest :: "string \<Rightarrow> string"
  json_loads :: "string \<Rightarrow> manifest option"
  json_dumps :: "manifest \<Rightarrow> string"
  raise_for_status_text :: "nat \<Rightarrow> string \<Rightarrow> string"

text \<open>The network as a run sees it: the remote state and the calls made so far, in order.\<close>

record 's net =
  remote :: 's
  calls :: "request list"

definition send :: "'s env \<Rightarrow> request \<Rightarrow> 's net \<Rightarrow> response \<times> 's net" where
  "send E rq n =
     (case respond E rq (remote n) of
        (r, s') \<Rightarrow> (r, \<lparr>remote = s', calls = calls n @ [rq]\<rparr>))"

section \<open>Configuration\<close>

definition PAGES_BASE :: string where
  "PAGES_BASE = ''https://LogunLACC.github.io/lacc-bulletin-assets''"

definition MANIFEST_PATH :: string where
  "MANIFEST_PATH = ''manifest.json''"

definition PROTECT_PREFIXES :: "string list" where
  "PROTECT_PREFIXES = [''img/static/'']"

section \<open>The GitHub contents API\<close>

definition sha8 :: "'s env \<Rightarrow> string \<Rightarrow> string" where
  "sha8 E s = take 8 (md5_hexdigest E s)"

text \<open>\<open>gh_headers\<close>: raises when the token is missing or empty; the headers are the token.\<close>

definition gh_headers :: "'s env \<Rightarrow> error + string" where
  "gh_headers E =
     (case GITHUB_TOKEN E of
        None \<Rightarrow> Inl (RuntimeError ''Missing GITHUB_TOKEN environment variable.'')
      | Some token \<Rightarrow>
          if token = [] then Inl (RuntimeError ''Missing GITHUB_TOKEN environment variable.'')
          else Inr token)"

definition gh_get_sha :: "'s env \<Rightarrow> string \<Rightarrow> 's net \<Rightarrow> (error + string option) \<times> 's net" where
  "gh_get_sha E path n =
     (case gh_headers E of
        Inl e \<Rightarrow> (Inl e, n)
      | Inr h \<Rightarrow>
          (case send E (GetContents path) n of
             (Raised m, n') \<Rightarrow> (Inl (RequestException m), n')
           | (Reply code text sha, n') \<Rightarrow> (Inr (if code = 200 then sha else None), n')))"

text \<open>\<open>if sha:\<close> on the value \<open>gh_get_sha\<close> returned.\<close>

fun sha_given :: "string option \<Rightarrow> bool" where
  "sha_given None = False"
| "sha_given (Some s) = (s \<noteq> [])"

definition gh_put_file :: "'s env \<Rightarrow> string \<Rightarrow> string \<Rightarrow> string \<Rightarrow> 's net \<Rightarrow> (error + unit) \<times> 's net" where
  "gh_put_file E path content_bytes message n =
     (case gh_get_sha E path n of
        (Inl e, n1) \<Rightarrow> (Inl e, n1)
      | (Inr sha, n1) \<Rightarrow>
          (case gh_headers E of
             Inl e \<Rightarrow> (Inl e, n1)
           | Inr h \<Rightarrow>
               (case send E (PutContents path message content_bytes
                               (if sha_given sha then sha else None)) n1 of
                  (Raised m, n2) \<Rightarrow> (Inl (RequestException m), n2)
                | (Reply code text x, n2) \<Rightarrow>
                    if code \<ge> 400
                    then (Inl (RuntimeError (''PUT '' @ path @ '' failed: '' @ str_nat code @ '' '' @ text)), n2)
                    else (Inr (), n2))))"

definition gh_delete_file :: "'s env \<Rightarrow> string \<Rightarrow> string \<Rightarrow> bool \<Rightarrow> 's net \<Rightarrow> (error + bool) \<times> 's net" where
  "gh_delete_file E path message dry_run n =
     (if dry_run then (Inr True, n)
      else
        case gh_get_sha E path n of
          (Inl e, n1) \<Rightarrow> (Inl e, n1)
        | (Inr sha, n1) \<Rightarrow>
            if \<not> sha_given sha then (Inr False, n1)
            else
              (case gh_headers E of
                 Inl e \<Rightarrow> (Inl e, n1)
               | Inr h \<Rightarrow>
                   (case send E (DeleteContents path message (case sha of Some s \<Rightarrow> s | None \<Rightarrow> [])) n1 of
                      (Raised m, n2) \<Rightarrow> (Inl (RequestException m), n2)
                    | (Reply code text x, n2) \<Rightarrow>
                        if code \<notin> {200, 204}
                        then (Inl (RuntimeError (''Delete failed for '' @ path @ '': '' @ str_nat code @ '' '' @ text)), n2)
                        else (Inr True, n2))))"

section \<open>Loading and saving the manifest\<close>

text \<open>
  \<open>load_manifest\<close>: the \<open>requests.get\<close> stands outside the \<open>try\<close>, which guards
  \<open>json.loads\<close> only.
\<close>

definition load_manifest :: "'s env \<Rightarrow> 's net \<Rightarrow> (error + manifest) \<times> 's net" where
  "load_manifest E n =
     (case send E GetRawManifest n of
        (Raised m, n') \<Rightarrow> (Inl (RequestException m), n')
      | (Reply code text x, n') \<Rightarrow>
          (Inr (if code = 200
                then (case json_loads E text of Some images \<Rightarrow> images | None \<Rightarrow> [])
                else []), n'))"

definition save_manifest :: "'s env \<Rightarrow> manifest \<Rightarrow> 's net \<Rightarrow> (error + unit) \<times> 's net" where
  "save_manifest E images n =
     gh_put_file E MANIFEST_PATH (json_dumps E images) ''Update manifest.json (auto)'' n"

fun is_protected_in :: "string list \<Rightarrow> string \<Rightarrow> bool" where
  "is_protected_in [] path = False"
| "is_protected_in (pref # prefs) path =
     (if startswith path pref then True else is_protected_in prefs path)"

definition is_protected :: "string \<Rightarrow> bool" where
  "is_protected path = is_protected_in PROTECT_PREFIXES path"

section \<open>The sync pass: \<open>process_events\<close>\<close>

text \<open>The repository path and the public URL of an event's image (lines 148 to 152).\<close>

definition rel_path_of :: "'s env \<Rightarrow> string \<Rightarrow> string \<Rightarrow> string \<Rightarrow> string" where
  "rel_path_of E title src date =
     (let stem = (let s = take 60 (slugify E title) in if s = [] then ''img'' else s);
          fname = stem @ ''-'' @ sha8 E src @ ''.jpg'';
          subdir = month_folder_from_date date
      in ''img/'' @ subdir @ ''/'' @ fname)"

definition commit_message :: "'s env \<Rightarrow> string \<Rightarrow> string \<Rightarrow> string" where
  "commit_message E title src =
     ''Add/Update '' @ (let s = take 60 (slugify E title) in if s = [] then ''img'' else s)
       @ ''-'' @ sha8 E src @ ''.jpg''"

text \<open>
  The statements of the \<open>try\<close> that can raise: the fetch with \<open>raise_for_status\<close>, the
  conversion, the upload. The result is the path and the public URL.
\<close>

definition upload :: "'s env \<Rightarrow> string \<Rightarrow> string \<Rightarrow> string \<Rightarrow> 's net \<Rightarrow> (error + string \<times> string) \<times> 's net" where
  "upload E src title date n =
     (case send E (GetUrl src) n of
        (Raised m, n1) \<Rightarrow> (Inl (RequestException m), n1)
      | (Reply code content x, n1) \<Rightarrow>
          if 400 \<le> code \<and> code < 600
          then (Inl (HTTPError (raise_for_status_text E code src)), n1)
          else
            (case to_jpg_bytes E content of
               Inl m \<Rightarrow> (Inl (ImageError m), n1)
             | Inr jpg \<Rightarrow>
                 let rel_path = rel_path_of E title src date;
                     public_url = PAGES_BASE @ ''/'' @ rel_path
                 in (case gh_put_file E rel_path jpg (commit_message E title src) n1 of
                       (Inl e, n2) \<Rightarrow> (Inl e, n2)
                     | (Inr u, n2) \<Rightarrow> (Inr (rel_path, public_url), n2))))"

text \<open>The manifest bookkeeping of lines 159 to 163.\<close>

definition record_asset :: "string \<Rightarrow> string \<Rightarrow> string \<Rightarrow> string \<Rightarrow> manifest \<Rightarrow> manifest" where
  "record_asset now title src rel_path images =
     (let rec0 = (case map_of images rel_path of
                    Some r \<Rightarrow> r
                  | None \<Rightarrow> [(''first_added'', Str now), (''title'', Str title), (''source'', Str src)]);
          rec1 = AList.update ''last_seen'' (Str now) rec0;
          rec2 = AList.update ''title'' (if title \<noteq> [] then Str title else py_get rec1 ''title'') rec1;
          rec3 = AList.update ''source'' (Str src) rec2
      in AList.update rel_path rec3 images)"

text \<open>
  One turn of the loop over the events, on the state of the pass: the output list, the
  manifest, the paths seen and the network. The rows of the CSV report are left out.
  After the upload the source sets \<open>image_jpg\<close> and appends the event before it records
  the asset, still inside the \<open>try\<close>; as the records of the manifest are objects here,
  recording cannot raise, so the event is appended once and the order of the two steps
  does not show.
\<close>

definition process_event ::
  "'s env \<Rightarrow> string \<Rightarrow> jobject \<Rightarrow> jobject list \<times> manifest \<times> string set \<times> 's net
     \<Rightarrow> jobject list \<times> manifest \<times> string set \<times> 's net" where
  "process_event E now ev st =
     (case st of (updated_events, images, seen_paths, n) \<Rightarrow>
        let src = py_get ev ''image'';
            title = or_empty (py_get ev ''title'');
            date = or_empty (py_get ev ''date'')
        in if \<not> truthy src then (updated_events @ [ev], images, seen_paths, n)
           else
             (case upload E (or_empty src) title date n of
                (Inr (rel_path, public_url), n') \<Rightarrow>
                  (updated_events @ [AList.update ''image_jpg'' (Str public_url) ev],
                   record_asset now title (or_empty src) rel_path images,
                   insert rel_path seen_paths, n')
              | (Inl e, n') \<Rightarrow>
                  (updated_events @ [AList.update ''image_jpg_error'' (Str (str_error e)) ev],
                   images, seen_paths, n')))"

primrec process_loop ::
  "'s env \<Rightarrow> string \<Rightarrow> jobject list \<Rightarrow> jobject list \<times> manifest \<times> string set \<times> 's net
     \<Rightarrow> jobject list \<times> manifest \<times> string set \<times> 's net" where
  "process_loop E now [] st = st"
| "process_loop E now (ev # evs) st = process_loop E now evs (process_event E now ev st)"

text \<open>
  \<open>process_events\<close> on the events read from the input file, at the clock reading
  \<open>utcnow\<close>: the annotated events written to the output file, the manifest and the set
  of paths seen. Only \<open>load_manifest\<close> can raise out of it.
\<close>

definition process_events ::
  "'s env \<Rightarrow> jobject list \<Rightarrow> datetime \<Rightarrow> 's net
     \<Rightarrow> (error + jobject list \<times> manifest \<times> string set) \<times> 's net" where
  "process_events E events utcnow n =
     (case load_manifest E n of
        (Inl e, n1) \<Rightarrow> (Inl e, n1)
      | (Inr images, n1) \<Rightarrow>
          (case process_loop E (now_iso utcnow) events ([], images, {}, n1) of
             (updated_events, images', seen_paths, n2) \<Rightarrow>
               (Inr (updated_events, images', seen_paths), n2)))"

section \<open>The prune pass: \<open>prune_old\<close>\<close>

definition cutoff_iso :: "datetime \<Rightarrow> int \<Rightarrow> error + string" where
  "cutoff_iso utcnow retention_days =
     (case minus_days utcnow retention_days of
        Inl e \<Rightarrow> Inl e
      | Inr cutoff_dt \<Rightarrow> Inr (isoformat_Z (cutoff_dt\<lparr>microsecond := 0\<rparr>)))"

text \<open>The first loop of \<open>prune_old\<close>: the list \<open>to_delete\<close>.\<close>

fun to_delete :: "manifest \<Rightarrow> string set \<Rightarrow> string \<Rightarrow> string list" where
  "to_delete [] seen_paths cutoff = []"
| "to_delete ((path, rec) # rest) seen_paths cutoff =
     (let last_seen = py_get rec ''last_seen'' in
      if is_protected path then to_delete rest seen_paths cutoff
      else if path \<notin> seen_paths \<and> truthy last_seen \<and> or_empty last_seen < cutoff
           then path # to_delete rest seen_paths cutoff
           else to_delete rest seen_paths cutoff)"

definition prune_message :: "int \<Rightarrow> string \<Rightarrow> string" where
  "prune_message retention_days path =
     ''Prune unused asset (> '' @ str_int retention_days @ ''d): '' @ path"

text \<open>
  The second loop: the paths deleted so far, the manifest and the network are its state.
  An exception of \<open>gh_delete_file\<close> is not caught and ends the loop; the manifest is
  returned as the loop left it.
\<close>

fun delete_loop ::
  "'s env \<Rightarrow> int \<Rightarrow> bool \<Rightarrow> string list \<Rightarrow> string list \<Rightarrow> manifest \<Rightarrow> 's net
     \<Rightarrow> (error + string list) \<times> manifest \<times> 's net" where
  "delete_loop E retention_days dry_run [] deleted images n = (Inr deleted, images, n)"
| "delete_loop E retention_days dry_run (path # paths) deleted images n =
     (case gh_delete_file E path (prune_message retention_days path) dry_run n of
        (Inl e, n') \<Rightarrow> (Inl e, images, n')
      | (Inr True, n') \<Rightarrow>
          delete_loop E retention_days dry_run paths (deleted @ [path])
            (if \<not> dry_run then AList.delete path images else images) n'
      | (Inr False, n') \<Rightarrow> delete_loop E retention_days dry_run paths deleted images n')"

definition prune_old ::
  "'s env \<Rightarrow> manifest \<Rightarrow> string set \<Rightarrow> datetime \<Rightarrow> int \<Rightarrow> bool \<Rightarrow> 's net
     \<Rightarrow> (error + string list) \<times> manifest \<times> 's net" where
  "prune_old E images seen_paths utcnow retention_days dry_run n =
     (case cutoff_iso utcnow retention_days of
        Inl e \<Rightarrow> (Inl e, images, n)
      | Inr cutoff \<Rightarrow>
          delete_loop E retention_days dry_run (to_delete images seen_paths cutoff) [] images n)"

section \<open>The run: \<open>main\<close>\<close>

text \<open>
  What a run leaves behind: the exception it ended with, if any; the events written to
  the output file, if it got that far; the paths reported deleted; the manifest in memory;
  the network.
\<close>

record 's run =
  run_failure :: "error option"
  run_events :: "jobject list option"
  run_deleted :: "string list"
  run_manifest :: manifest
  run_net :: "'s net"

definition main ::
  "'s env \<Rightarrow> jobject list \<Rightarrow> bool \<Rightarrow> int \<Rightarrow> bool \<Rightarrow> datetime \<Rightarrow> datetime \<Rightarrow> 's net \<Rightarrow> 's run" where
  "main E events prune retention dry_run utcnow_sync utcnow_prune n =
     (case process_events E events utcnow_sync n of
        (Inl e, n1) \<Rightarrow>
          \<lparr>run_failure = Some e, run_events = None, run_deleted = [], run_manifest = [],
           run_net = n1\<rparr>
      | (Inr (updated_events, images, seen_paths), n1) \<Rightarrow>
          (case (if prune then prune_old E images seen_paths utcnow_prune retention dry_run n1
                 else (Inr [], images, n1)) of
             (Inl e, images', n2) \<Rightarrow>
               \<lparr>run_failure = Some e, run_events = Some updated_events, run_deleted = [],
                run_manifest = images', run_net = n2\<rparr>
           | (Inr deleted, images', n2) \<Rightarrow>
               (case save_manifest E images' n2 of
                  (Inl e, n3) \<Rightarrow>
                    \<lparr>run_failure = Some e, run_events = Some updated_events,
                     run_deleted = deleted, run_manifest = images', run_net = n3\<rparr>
                | (Inr u, n3) \<Rightarrow>
                    \<lparr>run_failure = None, run_events = Some updated_events,
                     run_deleted = deleted, run_manifest = images', run_net = n3\<rparr>)))"

section \<open>A concrete environment\<close>

text \<open>
  A remote side without state, used to run the model on concrete inputs: every source
  image but \<open>https://x/missing.png\<close> is served, no manifest is stored yet, the contents
  API answers a \<open>GET\<close> with the status \<open>get_code\<close> (and a \<open>sha\<close> when that is 200) and a
  \<open>DELETE\<close> with the status \<open>delete_code\<close>, and accepts every \<open>PUT\<close>.
\<close>

definition example_respond :: "nat \<Rightarrow> nat \<Rightarrow> request \<Rightarrow> unit \<Rightarrow> response \<times> unit" where
  "example_respond get_code delete_code rq u =
     (case rq of
        GetUrl src \<Rightarrow>
          (if src = ''https://x/missing.png'' then Reply 404 ''Not Found'' None
           else Reply 200 ''avif'' None, ())
      | GetRawManifest \<Rightarrow> (Reply 404 ''Not Found'' None, ())
      | GetContents path \<Rightarrow>
          (Reply get_code [] (if get_code = 200 then Some ''3f2a'' else None), ())
      | PutContents path message content_bytes sha \<Rightarrow> (Reply 201 [] None, ())
      | DeleteContents path message sha \<Rightarrow> (Reply delete_code ''gone wrong'' None, ()))"

definition example_env :: "nat \<Rightarrow> nat \<Rightarrow> unit env" where
  "example_env get_code delete_code =
     \<lparr>GITHUB_TOKEN = Some ''ghp_token'',
      respond = example_respond get_code delete_code,
      to_jpg_bytes = (\<lambda>data. Inr (''jpg'' @ data)),
      slugify = (\<lambda>title. if title = ''Farmers Market'' then ''farmers-market'' else []),
      md5_hexdigest = (\<lambda>s. ''0a1b2c3d4e5f60718293a4b5c6d7e8f9''),
      json_loads = (\<lambda>text. None),
      json_dumps = (\<lambda>images. ''{}''),
      raise_for_status_text = (\<lambda>code url. str_nat code @ '' Error for url: '' @ url)\<rparr>"

definition net0 :: "unit net" where
  "net0 = \<lparr>remote = (), calls = []\<rparr>"

definition example_utcnow :: datetime where
  "example_utcnow =
     \<lparr>year = 2025, month = 9, day = 6, hour = 12, minute = 3, second = 4, microsecond = 77\<rparr>"

text \<open>
  A manifest with a pinned entry, an entry seen in the current run, a stale entry, an
  entry last seen exactly at the cutoff of 60 days before \<^const>\<open>example_utcnow\<close>, and
  an entry without \<open>last_seen\<close>.
\<close>

definition example_manifest :: manifest where
  "example_manifest =
     [(''img/static/logo.jpg'', [(''first_added'', Str ''2024-01-01T00:00:00Z''), (''last_seen'', Str ''2024-01-01T00:00:00Z'')]),
      (''img/2025/06/fair.jpg'', [(''first_added'', Str ''2025-06-01T00:00:00Z''), (''last_seen'', Str ''2025-06-01T00:00:00Z'')]),
      (''img/2025/05/old.jpg'', [(''first_added'', Str ''2025-05-01T00:00:00Z''), (''last_seen'', Str ''2025-05-01T00:00:00Z'')]),
      (''img/2025/07/edge.jpg'', [(''first_added'', Str ''2025-07-01T00:00:00Z''), (''last_seen'', Str ''2025-07-08T12:03:04Z'')]),
      (''img/2024/01/bare.jpg'', [(''first_added'', Str ''2024-01-01T00:00:00Z'')])]"

definition example_seen :: "string set" where
  "example_seen = {''img/2025/06/fair.jpg''}"

section \<open>Relations between the input and the output of the sync pass\<close>



text \<open>Three events: one whose image is served, one whose image is missing, one without image.\<close>

definition example_events :: "jobject list" where
  "example_events =
     [[(''title'', Str ''Farmers Market''), (''date'', Str ''Sat, 06 Sep 2025''),
       (''image'', Str ''https://x/a.png'')],
      [(''title'', Str ''Fair''), (''date'', Null), (''image'', Str ''https://x/missing.png'')],
      [(''title'', Str ''Picnic''), (''date'', Str ''Sun, 07 Sep 2025''), (''image'', Null)]]"






text \<open>
  Time order on clock readings, to the second, and the readings whose fields fit the
  widths of the ISO rendering.
\<close>

definition earlier :: "datetime \<Rightarrow> datetime \<Rightarrow> bool" where
  "earlier a b =
     (year a < year b \<or> year a = year b \<and>
       (month a < month b \<or> month a = month b \<and>
         (day a < day b \<or> day a = day b \<and>
           (hour a < hour b \<or> hour a = hour b \<and>
             (minute a < minute b \<or> minute a = minute b \<and> second a < second b)))))"

definition fits :: "datetime \<Rightarrow> bool" where
  "fits t = (year t < 10000 \<and> month t < 100 \<and> day t < 100 \<and> hour t < 100 \<and>
             minute t < 100 \<and> second t < 100)"

section \<open>Evaluation on concrete inputs\<close>

lemma digit_char_code:
  "digit_char d = (if d < 10 then ''0123456789'' ! d else char_of (48 + d))"
proof -
  have "d < 10 \<Longrightarrow> d \<in> {0, 1, 2, 3, 4, 5, 6, 7, 8, 9}" by auto
  then show ?thesis
    by (auto simp: digit_char_def char_of_def bit_0)
qed

lemmas calendar_defs =
  toordinal_def fromordinal_def days_before_year_def days_before_month_def days_in_month_def
  is_leap_def minus_days_def MAXORDINAL_def upt_conv_Cons Let_def

lemmas render_defs = isoformat_Z_def zero_pad_def str_nat.simps digit_char_code str_int_def

lemmas protect_defs = is_protected_def PROTECT_PREFIXES_def startswith_def

lemmas api_defs = gh_delete_file_def gh_get_sha_def gh_headers_def gh_put_file_def send_def
  example_env_def example_respond_def net0_def prune_message_def

lemma example_cutoff: "cutoff_iso example_utcnow 60 = Inr ''2025-07-08T12:03:04Z''"
  by (simp add: cutoff_iso_def example_utcnow_def calendar_defs render_defs)

lemma example_to_delete:
  "to_delete example_manifest example_seen ''2025-07-08T12:03:04Z'' = [''img/2025/05/old.jpg'']"
  by (simp add: example_manifest_def example_seen_def protect_defs py_get_def)

lemma example_prune_live:
  "prune_old (example_env 200 200) example_manifest example_seen example_utcnow 60 False net0 =
     (Inr [''img/2025/05/old.jpg''], AList.delete ''img/2025/05/old.jpg'' example_manifest,
      \<lparr>remote = (), calls = [GetContents ''img/2025/05/old.jpg'',
          DeleteContents ''img/2025/05/old.jpg''
            ''Prune unused asset (> 60d): img/2025/05/old.jpg'' ''3f2a'']\<rparr>)"
  by (simp add: prune_old_def example_cutoff example_to_delete api_defs render_defs)

section \<open>The prune pass: which entries it can touch\<close>

lemma is_protected_in_iff:
  "is_protected_in prefs path \<longleftrightarrow> (\<exists>pref \<in> set prefs. startswith path pref)"
  by (induction prefs) auto

lemma is_protected_iff:
  "is_protected path \<longleftrightarrow> (\<exists>pref \<in> set PROTECT_PREFIXES. startswith path pref)"
  by (simp add: is_protected_def is_protected_in_iff)

lemma to_delete_iff:
  "path \<in> set (to_delete images seen_paths cutoff) \<longleftrightarrow>
     \<not> is_protected path \<and> path \<notin> seen_paths \<and>
     (\<exists>rec. (path, rec) \<in> set images \<and> truthy (py_get rec ''last_seen'') \<and>
        or_empty (py_get rec ''last_seen'') < cutoff)"
  by (induction images seen_paths cutoff rule: to_delete.induct) (auto simp: Let_def)

lemma send_calls: "send E rq n = (r, n') \<Longrightarrow> calls n' = calls n @ [rq]"
  by (auto simp: send_def split: prod.splits)

lemma gh_get_sha_calls:
  "gh_get_sha E path n = (r, n') \<Longrightarrow>
     calls n' = calls n \<or> calls n' = calls n @ [GetContents path]"
  by (auto simp: gh_get_sha_def split: sum.splits prod.splits response.splits dest: send_calls)

lemma gh_delete_file_calls:
  "gh_delete_file E path msg dry_run n = (r, n') \<Longrightarrow>
     set (calls n') \<subseteq>
       set (calls n) \<union> {GetContents path} \<union> {DeleteContents path msg sha | sha. True}"
  by (auto simp: gh_delete_file_def split: if_splits sum.splits prod.splits response.splits
      dest!: send_calls gh_get_sha_calls)

text \<open>
  A path that is not among the candidates keeps its manifest entry, is not added to the
  list of deleted paths, and no \<open>DELETE\<close> is sent for it.
\<close>

lemma delete_loop_untouched:
  "delete_loop E rd dry_run paths deleted images n = (r, images', n') \<Longrightarrow> path \<notin> set paths \<Longrightarrow>
     map_of images' path = map_of images path \<and>
     (\<forall>ds. r = Inr ds \<longrightarrow> path \<in> set ds \<longrightarrow> path \<in> set deleted) \<and>
     (\<forall>m sha. DeleteContents path m sha \<in> set (calls n') \<longrightarrow>
        DeleteContents path m sha \<in> set (calls n))"
proof (induction paths arbitrary: deleted images n)
  case Nil
  then show ?case by auto
next
  case (Cons p ps)
  obtain g n1 where g: "gh_delete_file E p (prune_message rd p) dry_run n = (g, n1)"
    by (cases "gh_delete_file E p (prune_message rd p) dry_run n")
  from Cons.prems have ne: "path \<noteq> p" and nin: "path \<notin> set ps" by auto
  have c: "\<And>m sha. DeleteContents path m sha \<in> set (calls n1) \<Longrightarrow>
      DeleteContents path m sha \<in> set (calls n)"
    using gh_delete_file_calls [OF g] ne by auto
  show ?case
  proof (cases g)
    case (Inl e)
    with Cons.prems g c show ?thesis by auto
  next
    case (Inr b)
    show ?thesis
    proof (cases b)
      case True
      with Inr g Cons.prems have
        "delete_loop E rd dry_run ps (deleted @ [p])
           (if \<not> dry_run then AList.delete p images else images) n1 = (r, images', n')"
        by simp
      from Cons.IH [OF this nin] ne c show ?thesis by (auto simp: AList.delete_conv')
    next
      case False
      with Inr g Cons.prems have "delete_loop E rd dry_run ps deleted images n1 = (r, images', n')"
        by simp
      from Cons.IH [OF this nin] ne c show ?thesis by auto
    qed
  qed
qed

lemma prune_old_untouched:
  assumes "prune_old E images seen_paths utcnow retention_days dry_run n = (r, images', n')"
    and "\<And>cutoff. path \<notin> set (to_delete images seen_paths cutoff)"
  shows "map_of images' path = map_of images path \<and>
         (\<forall>ds. r = Inr ds \<longrightarrow> path \<notin> set ds) \<and>
         (\<forall>m sha. DeleteContents path m sha \<in> set (calls n') \<longrightarrow>
            DeleteContents path m sha \<in> set (calls n))"
proof (cases "cutoff_iso utcnow retention_days")
  case (Inl e)
  with assms(1) show ?thesis by (auto simp: prune_old_def)
next
  case (Inr cutoff)
  with assms(1) have
    "delete_loop E retention_days dry_run (to_delete images seen_paths cutoff) [] images n =
       (r, images', n')"
    by (simp add: prune_old_def)
  from delete_loop_untouched [OF this assms(2)] show ?thesis by auto
qed

text \<open>
  C1. Whatever the manifest, the seen set, the clock, the retention window and the mode,
  and however the pass ends, an entry whose path starts with one of the protected prefixes,
  or whose path is in the seen set, keeps its manifest entry, is not among the paths
  reported deleted, and no \<open>DELETE\<close> request is sent for it. Its \<open>last_seen\<close> plays no role.
\<close>

theorem prune_keeps_protected_and_seen:
  assumes "prune_old E images seen_paths utcnow retention_days dry_run n = (r, images', n')"
    and "(\<exists>pref \<in> set PROTECT_PREFIXES. startswith path pref) \<or> path \<in> seen_paths"
  shows "map_of images' path = map_of images path \<and>
         (\<forall>ds. r = Inr ds \<longrightarrow> path \<notin> set ds) \<and>
         (\<forall>m sha. DeleteContents path m sha \<in> set (calls n') \<longrightarrow>
            DeleteContents path m sha \<in> set (calls n))"
proof -
  from assms(2) have "\<And>cutoff. path \<notin> set (to_delete images seen_paths cutoff)"
    by (auto simp: to_delete_iff is_protected_iff)
  from prune_old_untouched [OF assms(1) this] show ?thesis .
qed

theorem prune_keeps_protected_and_seen_witness:
  "startswith ''img/static/logo.jpg'' ''img/static/'' \<and>
   fst (prune_old (example_env 200 200) example_manifest example_seen example_utcnow 60
       False net0) = Inr [''img/2025/05/old.jpg''] \<and>
   map_of (fst (snd (prune_old (example_env 200 200) example_manifest example_seen
       example_utcnow 60 False net0))) ''img/static/logo.jpg''
     = map_of example_manifest ''img/static/logo.jpg'' \<and>
   ''img/static/logo.jpg'' \<notin> set [''img/2025/05/old.jpg''] \<and>
   map_of (fst (snd (prune_old (example_env 200 200) example_manifest example_seen
       example_utcnow 60 False net0))) ''img/2025/06/fair.jpg''
     = map_of example_manifest ''img/2025/06/fair.jpg''"
proof -
  have p: "(\<exists>pref \<in> set PROTECT_PREFIXES. startswith ''img/static/logo.jpg'' pref)
      \<or> ''img/static/logo.jpg'' \<in> example_seen"
    by (simp add: protect_defs)
  have s: "(\<exists>pref \<in> set PROTECT_PREFIXES. startswith ''img/2025/06/fair.jpg'' pref)
      \<or> ''img/2025/06/fair.jpg'' \<in> example_seen"
    by (simp add: example_seen_def)
  have "startswith ''img/static/logo.jpg'' ''img/static/''"
    by (simp add: startswith_def)
  then show ?thesis
    using prune_keeps_protected_and_seen [OF example_prune_live p]
      prune_keeps_protected_and_seen [OF example_prune_live s]
    by (simp add: example_prune_live)
qed

lemma entry_unique:
  "distinct (map fst images) \<Longrightarrow> (path, rec) \<in> set images \<Longrightarrow> (path, rec') \<in> set images \<Longrightarrow>
     rec' = rec"
  by (rule eq_key_imp_eq_value)

lemma example_manifest_distinct: "distinct (map fst example_manifest)"
  by (simp add: example_manifest_def)

text \<open>
  C10. An entry whose record has no \<open>last_seen\<close>, or has \<open>null\<close> or the empty string
  there, is never a candidate, whatever the cutoff: the pass keeps its manifest entry, does
  not report it deleted and sends no \<open>DELETE\<close> for it.
\<close>

theorem prune_skips_missing_last_seen:
  assumes "prune_old E images seen_paths utcnow retention_days dry_run n = (r, images', n')"
    and "distinct (map fst images)"
    and "(path, rec) \<in> set images"
    and "map_of rec ''last_seen'' \<in> {None, Some Null, Some (Str [])}"
  shows "(\<forall>cutoff. path \<notin> set (to_delete images seen_paths cutoff)) \<and>
         map_of images' path = Some rec \<and>
         (\<forall>ds. r = Inr ds \<longrightarrow> path \<notin> set ds) \<and>
         (\<forall>m sha. DeleteContents path m sha \<in> set (calls n') \<longrightarrow>
            DeleteContents path m sha \<in> set (calls n))"
proof -
  from assms(4) have "\<not> truthy (py_get rec ''last_seen'')"
    by (auto simp: py_get_def)
  then have c: "\<And>cutoff. path \<notin> set (to_delete images seen_paths cutoff)"
    using entry_unique [OF assms(2,3)] unfolding to_delete_iff by blast
  have "map_of images path = Some rec"
    using assms(2,3) by simp
  with prune_old_untouched [OF assms(1) c] c show ?thesis by simp
qed

theorem prune_skips_missing_last_seen_witness:
  "map_of [(''first_added'', Str ''2024-01-01T00:00:00Z'')] ''last_seen'' = None \<and>
   ''2024-01-01T00:00:00Z'' < ''2025-07-08T12:03:04Z'' \<and>
   ''img/2024/01/bare.jpg'' \<notin> set (to_delete example_manifest example_seen ''2025-07-08T12:03:04Z'') \<and>
   map_of (fst (snd (prune_old (example_env 200 200) example_manifest example_seen
       example_utcnow 60 False net0))) ''img/2024/01/bare.jpg''
     = Some [(''first_added'', Str ''2024-01-01T00:00:00Z'')]"
proof -
  have bare: "(''img/2024/01/bare.jpg'', [(''first_added'', Str ''2024-01-01T00:00:00Z'')])
      \<in> set example_manifest"
    by (simp add: example_manifest_def)
  have m: "map_of [(''first_added'', Str ''2024-01-01T00:00:00Z'')] ''last_seen''
      \<in> {None, Some Null, Some (Str [])}"
    by simp
  show ?thesis
    using prune_skips_missing_last_seen [OF example_prune_live example_manifest_distinct bare m]
    by (simp add: example_prune_live)
qed

section \<open>The prune pass: absent objects and failed deletes\<close>

lemma to_delete_subset: "set (to_delete images seen_paths cutoff) \<subseteq> fst ` set images"
  by (force simp: to_delete_iff)

lemma to_delete_distinct:
  "distinct (map fst images) \<Longrightarrow> distinct (to_delete images seen_paths cutoff)"
proof (induction images seen_paths cutoff rule: to_delete.induct)
  case (1 seen_paths cutoff)
  then show ?case by simp
next
  case (2 path rec rest seen_paths cutoff)
  then show ?case
    using to_delete_subset [of rest seen_paths cutoff] by (auto simp: Let_def)
qed

lemma delete_loop_append:
  "delete_loop E rd dry_run (xs @ ys) deleted images n =
     (case delete_loop E rd dry_run xs deleted images n of
        (Inl e, images1, n1) \<Rightarrow> (Inl e, images1, n1)
      | (Inr deleted1, images1, n1) \<Rightarrow> delete_loop E rd dry_run ys deleted1 images1 n1)"
proof (induction xs arbitrary: deleted images n)
  case Nil
  then show ?case by simp
next
  case (Cons x xs)
  show ?case
  proof (cases "gh_delete_file E x (prune_message rd x) dry_run n")
    case (Pair g n1)
    then show ?thesis
      by (cases g) (simp_all add: Cons.IH split: bool.splits split del: if_split)
  qed
qed

lemma delete_loop_calls:
  "delete_loop E rd dry_run paths deleted images n = (r, images', n') \<Longrightarrow>
     set (calls n') \<subseteq> set (calls n) \<union> GetContents ` set paths \<union>
       {DeleteContents p m sha | p m sha. p \<in> set paths}"
proof (induction paths arbitrary: deleted images n)
  case Nil
  then show ?case by auto
next
  case (Cons p ps)
  obtain g n1 where g: "gh_delete_file E p (prune_message rd p) dry_run n = (g, n1)"
    by (cases "gh_delete_file E p (prune_message rd p) dry_run n")
  have c: "set (calls n1) \<subseteq> set (calls n) \<union> GetContents ` set (p # ps) \<union>
       {DeleteContents q m sha | q m sha. q \<in> set (p # ps)}"
    using gh_delete_file_calls [OF g] by auto
  show ?case
  proof (cases g)
    case (Inl e)
    with Cons.prems g c show ?thesis by auto
  next
    case (Inr b)
    with Cons.prems g obtain d im where
      "delete_loop E rd dry_run ps d im n1 = (r, images', n')"
      by (cases b) auto
    from Cons.IH [OF this] c show ?thesis by auto
  qed
qed

text \<open>
  C3 (as the code has it). In live mode, take a candidate for which the token is set and
  the contents API answers the \<open>GET\<close> with a status other than 200, or with no \<open>sha\<close>: the
  object is absent. Then \<open>gh_delete_file\<close> returns \<open>False\<close>, raising nothing and sending no
  \<open>DELETE\<close>, and the pass goes on with the remaining candidates from the same list of
  deleted paths and the same manifest: the candidate is not reported deleted and its
  manifest entry stays.
\<close>

theorem absent_candidate_is_kept:
  assumes "gh_headers E = Inr h"
    and "send E (GetContents path) n = (Reply code text sha, n1)"
    and "code \<noteq> 200 \<or> \<not> sha_given sha"
    and "path \<notin> set paths"
    and "delete_loop E rd False (path # paths) deleted images n = (r, images', n')"
  shows "gh_delete_file E path (prune_message rd path) False n = (Inr False, n1) \<and>
         calls n1 = calls n @ [GetContents path] \<and>
         delete_loop E rd False paths deleted images n1 = (r, images', n') \<and>
         map_of images' path = map_of images path \<and>
         (\<forall>ds. r = Inr ds \<longrightarrow> path \<in> set ds \<longrightarrow> path \<in> set deleted)"
proof -
  have g: "gh_delete_file E path (prune_message rd path) False n = (Inr False, n1)"
    using assms(1,2,3) by (auto simp: gh_delete_file_def gh_get_sha_def)
  then have l: "delete_loop E rd False paths deleted images n1 = (r, images', n')"
    using assms(5) by simp
  from delete_loop_untouched [OF l assms(4)] g l send_calls [OF assms(2)]
  show ?thesis by simp
qed

lemma example_prune_absent:
  "prune_old (example_env 404 200) example_manifest example_seen example_utcnow 60 False net0 =
     (Inr [], example_manifest,
      \<lparr>remote = (), calls = [GetContents ''img/2025/05/old.jpg'']\<rparr>)"
  by (simp add: prune_old_def example_cutoff example_to_delete api_defs render_defs)

theorem absent_candidate_is_kept_witness:
  "gh_headers (example_env 404 200) = Inr ''ghp_token'' \<and>
   send (example_env 404 200) (GetContents ''img/2025/05/old.jpg'') net0 =
     (Reply 404 [] None, \<lparr>remote = (), calls = [GetContents ''img/2025/05/old.jpg'']\<rparr>) \<and>
   gh_delete_file (example_env 404 200) ''img/2025/05/old.jpg''
     (prune_message 60 ''img/2025/05/old.jpg'') False net0 =
     (Inr False, \<lparr>remote = (), calls = [GetContents ''img/2025/05/old.jpg'']\<rparr>) \<and>
   map_of example_manifest ''img/2025/05/old.jpg'' =
     Some [(''first_added'', Str ''2025-05-01T00:00:00Z''), (''last_seen'', Str ''2025-05-01T00:00:00Z'')]"
proof -
  have h: "gh_headers (example_env 404 200) = Inr ''ghp_token''"
    by (simp add: api_defs)
  have s: "send (example_env 404 200) (GetContents ''img/2025/05/old.jpg'') net0 =
     (Reply 404 [] None, \<lparr>remote = (), calls = [GetContents ''img/2025/05/old.jpg'']\<rparr>)"
    by (simp add: api_defs)
  have c: "(404::nat) \<noteq> 200 \<or> \<not> sha_given None" by simp
  have p: "''img/2025/05/old.jpg'' \<notin> set []" by simp
  have l: "delete_loop (example_env 404 200) 60 False [''img/2025/05/old.jpg''] [] example_manifest net0 =
     (Inr [], example_manifest, \<lparr>remote = (), calls = [GetContents ''img/2025/05/old.jpg'']\<rparr>)"
    using example_prune_absent by (simp add: prune_old_def example_cutoff example_to_delete)
  show ?thesis
    using absent_candidate_is_kept [OF h s c p l] h s
    by (simp add: example_manifest_def)
qed

text \<open>
  The claim as the specification states it fails: on the example manifest, with the stale
  object absent from the remote store (the \<open>GET\<close> on it answers 404), the live pass
  reports nothing deleted and returns the manifest with the stale entry still in it.
\<close>

theorem absent_candidate_counterexample:
  "to_delete example_manifest example_seen ''2025-07-08T12:03:04Z'' = [''img/2025/05/old.jpg''] \<and>
   fst (respond (example_env 404 200) (GetContents ''img/2025/05/old.jpg'') ()) = Reply 404 [] None \<and>
   prune_old (example_env 404 200) example_manifest example_seen example_utcnow 60 False net0 =
     (Inr [], example_manifest, \<lparr>remote = (), calls = [GetContents ''img/2025/05/old.jpg'']\<rparr>) \<and>
   map_of example_manifest ''img/2025/05/old.jpg'' \<noteq> None"
  by (simp add: example_prune_absent example_to_delete)
    (simp add: example_env_def example_respond_def example_manifest_def)

text \<open>
  C4 (as the code has it). \<open>prune_old\<close> has no handler around \<open>gh_delete_file\<close>. When the
  candidates before \<open>path\<close> have been processed and the delete of \<open>path\<close> raises, the
  exception leaves \<open>prune_old\<close> at once: the manifest is as the earlier candidates left
  it, and for every later candidate no request is sent and the manifest entry is untouched.
\<close>

theorem failed_delete_ends_pass:
  assumes "distinct (map fst images)"
    and "cutoff_iso utcnow rd = Inr cutoff"
    and "to_delete images seen_paths cutoff = before @ path # after"
    and "delete_loop E rd dry_run before [] images n = (Inr deleted1, images1, n1)"
    and "gh_delete_file E path (prune_message rd path) dry_run n1 = (Inl e, n2)"
  shows "prune_old E images seen_paths utcnow rd dry_run n = (Inl e, images1, n2) \<and>
         (\<forall>q \<in> set after.
            map_of images1 q = map_of images q \<and>
            (GetContents q \<in> set (calls n2) \<longrightarrow> GetContents q \<in> set (calls n)) \<and>
            (\<forall>m sha. DeleteContents q m sha \<in> set (calls n2) \<longrightarrow>
               DeleteContents q m sha \<in> set (calls n)))"
proof -
  have "prune_old E images seen_paths utcnow rd dry_run n =
      delete_loop E rd dry_run (before @ path # after) [] images n"
    using assms(2,3) by (simp add: prune_old_def)
  also have "\<dots> = delete_loop E rd dry_run (path # after) deleted1 images1 n1"
    using assms(4) by (simp add: delete_loop_append)
  also have "\<dots> = (Inl e, images1, n2)"
    using assms(5) by simp
  finally have a: "prune_old E images seen_paths utcnow rd dry_run n = (Inl e, images1, n2)" .
  have d: "distinct (before @ path # after)"
    using to_delete_distinct [OF assms(1), of seen_paths cutoff] assms(3) by simp
  have b: "map_of images1 q = map_of images q \<and>
      (GetContents q \<in> set (calls n2) \<longrightarrow> GetContents q \<in> set (calls n)) \<and>
      (\<forall>m sha. DeleteContents q m sha \<in> set (calls n2) \<longrightarrow>
         DeleteContents q m sha \<in> set (calls n))" if q: "q \<in> set after" for q
  proof -
    from d q have nb: "q \<notin> set before" and np: "q \<noteq> path" by auto
    from delete_loop_untouched [OF assms(4) nb]
    have m: "map_of images1 q = map_of images q" by simp
    have c1: "set (calls n1) \<subseteq> set (calls n) \<union> GetContents ` set before \<union>
        {DeleteContents p m sha | p m sha. p \<in> set before}"
      by (rule delete_loop_calls [OF assms(4)])
    have c2: "set (calls n2) \<subseteq> set (calls n1) \<union> {GetContents path} \<union>
        {DeleteContents path (prune_message rd path) sha | sha. True}"
      by (rule gh_delete_file_calls [OF assms(5)])
    from c1 c2 nb np have "GetContents q \<in> set (calls n2) \<longrightarrow> GetContents q \<in> set (calls n)"
      by auto
    moreover from c1 c2 nb np have "\<forall>m sha. DeleteContents q m sha \<in> set (calls n2) \<longrightarrow>
        DeleteContents q m sha \<in> set (calls n)"
      by auto
    ultimately show ?thesis using m by simp
  qed
  from a b show ?thesis by blast
qed

lemma example_to_delete_unseen:
  "to_delete example_manifest {} ''2025-07-08T12:03:04Z'' =
     [''img/2025/06/fair.jpg'', ''img/2025/05/old.jpg'']"
  by (simp add: example_manifest_def protect_defs py_get_def)

lemma example_failed_delete:
  "gh_delete_file (example_env 200 500) ''img/2025/06/fair.jpg''
     (prune_message 60 ''img/2025/06/fair.jpg'') False net0 =
     (Inl (RuntimeError ''Delete failed for img/2025/06/fair.jpg: 500 gone wrong''),
      \<lparr>remote = (), calls = [GetContents ''img/2025/06/fair.jpg'',
          DeleteContents ''img/2025/06/fair.jpg''
            ''Prune unused asset (> 60d): img/2025/06/fair.jpg'' ''3f2a'']\<rparr>)"
  by (simp add: api_defs render_defs)

theorem failed_delete_ends_pass_witness:
  "prune_old (example_env 200 500) example_manifest {} example_utcnow 60 False net0 =
     (Inl (RuntimeError ''Delete failed for img/2025/06/fair.jpg: 500 gone wrong''),
      example_manifest,
      \<lparr>remote = (), calls = [GetContents ''img/2025/06/fair.jpg'',
          DeleteContents ''img/2025/06/fair.jpg''
            ''Prune unused asset (> 60d): img/2025/06/fair.jpg'' ''3f2a'']\<rparr>) \<and>
   GetContents ''img/2025/05/old.jpg'' \<notin> set [GetContents ''img/2025/06/fair.jpg'',
          DeleteContents ''img/2025/06/fair.jpg''
            ''Prune unused asset (> 60d): img/2025/06/fair.jpg'' ''3f2a'']"
proof -
  have t: "to_delete example_manifest {} ''2025-07-08T12:03:04Z'' =
      [] @ ''img/2025/06/fair.jpg'' # [''img/2025/05/old.jpg'']"
    by (simp add: example_to_delete_unseen)
  have l: "delete_loop (example_env 200 500) 60 False [] [] example_manifest net0 =
      (Inr [], example_manifest, net0)"
    by simp
  show ?thesis
    using failed_delete_ends_pass [OF example_manifest_distinct example_cutoff t l
        example_failed_delete]
    by simp
qed

text \<open>
  The claim as the specification states it fails: with two candidates and a remote store
  that answers every \<open>DELETE\<close> with status 500, the pass ends with the exception of the
  first candidate, and nothing is ever requested for the second one.
\<close>

theorem failed_delete_counterexample:
  "to_delete example_manifest {} ''2025-07-08T12:03:04Z'' =
     [''img/2025/06/fair.jpg'', ''img/2025/05/old.jpg''] \<and>
   prune_old (example_env 200 500) example_manifest {} example_utcnow 60 False net0 =
     (Inl (RuntimeError ''Delete failed for img/2025/06/fair.jpg: 500 gone wrong''),
      example_manifest,
      \<lparr>remote = (), calls = [GetContents ''img/2025/06/fair.jpg'',
          DeleteContents ''img/2025/06/fair.jpg''
            ''Prune unused asset (> 60d): img/2025/06/fair.jpg'' ''3f2a'']\<rparr>)"
  by (simp add: prune_old_def example_cutoff example_to_delete_unseen example_failed_delete)

section \<open>Folder of an event date: the cases\<close>
















section \<open>Loading the manifest\<close>

lemma process_events_load_raises:
  "load_manifest E n = (Inl e, n1) \<Longrightarrow> process_events E events utcnow n = (Inl e, n1)"
  by (simp add: process_events_def)

lemma main_load_raises:
  "load_manifest E n = (Inl e, n1) \<Longrightarrow>
     main E events prune retention dry_run t1 t2 n =
       \<lparr>run_failure = Some e, run_events = None, run_deleted = [], run_manifest = [],
        run_net = n1\<rparr>"
  by (simp add: main_def process_events_load_raises)

text \<open>
  C8 (as the code has it). When the fetch of the persisted manifest is answered, whatever
  the status and the body, \<open>load_manifest\<close> returns a manifest and raises nothing: the one
  parsed from the body when the status is 200 and the body parses, the empty one on any
  other status and on a body that does not parse. When the fetch itself raises, the
  exception is not caught: it leaves \<open>load_manifest\<close> and ends the run before any event
  is processed.
\<close>

theorem load_manifest_cases:
  "(\<forall>code text x n1. send E GetRawManifest n = (Reply code text x, n1) \<longrightarrow>
      load_manifest E n =
        (Inr (if code = 200 \<and> json_loads E text \<noteq> None
              then (case json_loads E text of Some images \<Rightarrow> images | None \<Rightarrow> [])
              else []), n1)) \<and>
   (\<forall>m n1. send E GetRawManifest n = (Raised m, n1) \<longrightarrow>
      load_manifest E n = (Inl (RequestException m), n1) \<and>
      main E events prune retention dry_run t1 t2 n =
        \<lparr>run_failure = Some (RequestException m), run_events = None, run_deleted = [],
         run_manifest = [], run_net = n1\<rparr>)"
proof -
  have a: "load_manifest E n = (Inl (RequestException m), n1)"
    if "send E GetRawManifest n = (Raised m, n1)" for m n1
    using that by (simp add: load_manifest_def)
  have b: "load_manifest E n =
        (Inr (if code = 200 \<and> json_loads E body \<noteq> None
              then (case json_loads E body of Some images \<Rightarrow> images | None \<Rightarrow> [])
              else []), n1)"
    if "send E GetRawManifest n = (Reply code body x, n1)" for code body x n1
    using that by (auto simp: load_manifest_def)
  from a b main_load_raises show ?thesis by blast
qed

theorem load_manifest_cases_witness:
  "send (example_env 200 200) GetRawManifest net0 =
     (Reply 404 ''Not Found'' None, \<lparr>remote = (), calls = [GetRawManifest]\<rparr>) \<and>
   load_manifest (example_env 200 200) net0 =
     (Inr [], \<lparr>remote = (), calls = [GetRawManifest]\<rparr>) \<and>
   send ((example_env 200 200)\<lparr>respond := \<lambda>rq u. (Raised ''timed out'', ())\<rparr>) GetRawManifest net0 =
     (Raised ''timed out'', \<lparr>remote = (), calls = [GetRawManifest]\<rparr>) \<and>
   load_manifest ((example_env 200 200)\<lparr>respond := \<lambda>rq u. (Raised ''timed out'', ())\<rparr>) net0 =
     (Inl (RequestException ''timed out''), \<lparr>remote = (), calls = [GetRawManifest]\<rparr>)"
proof -
  have s: "send (example_env 200 200) GetRawManifest net0 =
     (Reply 404 ''Not Found'' None, \<lparr>remote = (), calls = [GetRawManifest]\<rparr>)"
    by (simp add: api_defs)
  have r: "send ((example_env 200 200)\<lparr>respond := \<lambda>rq u. (Raised ''timed out'', ())\<rparr>)
      GetRawManifest net0 =
     (Raised ''timed out'', \<lparr>remote = (), calls = [GetRawManifest]\<rparr>)"
    by (simp add: api_defs)
  from load_manifest_cases [of "example_env 200 200" net0] s
  have "load_manifest (example_env 200 200) net0 =
     (Inr [], \<lparr>remote = (), calls = [GetRawManifest]\<rparr>)"
    by simp
  moreover from load_manifest_cases
    [of "(example_env 200 200)\<lparr>respond := \<lambda>rq u. (Raised ''timed out'', ())\<rparr>" net0] r
  have "load_manifest ((example_env 200 200)\<lparr>respond := \<lambda>rq u. (Raised ''timed out'', ())\<rparr>) net0 =
     (Inl (RequestException ''timed out''), \<lparr>remote = (), calls = [GetRawManifest]\<rparr>)"
    by simp
  ultimately show ?thesis using s r by simp
qed

text \<open>
  The claim as the specification states it fails: when the fetch of the manifest times out,
  \<open>load_manifest\<close> raises, and the run ends with that exception, no event processed and no
  output written.
\<close>

theorem load_manifest_counterexample:
  "load_manifest ((example_env 200 200)\<lparr>respond := \<lambda>rq u. (Raised ''timed out'', ())\<rparr>) net0 =
     (Inl (RequestException ''timed out''), \<lparr>remote = (), calls = [GetRawManifest]\<rparr>) \<and>
   main ((example_env 200 200)\<lparr>respond := \<lambda>rq u. (Raised ''timed out'', ())\<rparr>)
       [[(''title'', Str ''Farmers Market''), (''date'', Str ''Sat, 06 Sep 2025''),
         (''image'', Str ''https://x/a.png'')]]
       False 60 False example_utcnow example_utcnow net0 =
     \<lparr>run_failure = Some (RequestException ''timed out''), run_events = None,
      run_deleted = [], run_manifest = [],
      run_net = \<lparr>remote = (), calls = [GetRawManifest]\<rparr>\<rparr>"
  by (simp add: main_def process_events_def load_manifest_def api_defs)

section \<open>The sync pass: one annotation per event\<close>

lemma send_calls_mono: "send E rq n = (r, n') \<Longrightarrow> set (calls n) \<subseteq> set (calls n')"
  by (auto dest: send_calls)

lemma gh_get_sha_calls_mono: "gh_get_sha E path n = (r, n') \<Longrightarrow> set (calls n) \<subseteq> set (calls n')"
  by (auto dest: gh_get_sha_calls)







lemmas folder_defs = month_folder_from_date_def month_folder_from_date_try_def split_def
  strip_def isspace_def py_index_def months_def

lemmas sync_defs = process_events_def load_manifest_def process_event_def upload_def
  rel_path_of_def commit_message_def sha8_def record_asset_def py_get_def PAGES_BASE_def
  now_iso_def example_utcnow_def Let_def


lemma example_sync:
  "process_events (example_env 404 200) example_events example_utcnow net0 =
     (Inr ([[(''title'', Str ''Farmers Market''), (''date'', Str ''Sat, 06 Sep 2025''),
             (''image'', Str ''https://x/a.png''),
             (''image_jpg'', Str ''https://LogunLACC.github.io/lacc-bulletin-assets/img/2025/09/farmers-market-0a1b2c3d.jpg'')],
            [(''title'', Str ''Fair''), (''date'', Null), (''image'', Str ''https://x/missing.png''),
             (''image_jpg_error'', Str ''404 Error for url: https://x/missing.png'')],
            [(''title'', Str ''Picnic''), (''date'', Str ''Sun, 07 Sep 2025''), (''image'', Null)]],
           [(''img/2025/09/farmers-market-0a1b2c3d.jpg'',
             [(''first_added'', Str ''2025-09-06T12:03:04Z''), (''title'', Str ''Farmers Market''),
              (''source'', Str ''https://x/a.png''), (''last_seen'', Str ''2025-09-06T12:03:04Z'')])],
           {''img/2025/09/farmers-market-0a1b2c3d.jpg''}),
      \<lparr>remote = (),
       calls = [GetRawManifest, GetUrl ''https://x/a.png'',
                GetContents ''img/2025/09/farmers-market-0a1b2c3d.jpg'',
                PutContents ''img/2025/09/farmers-market-0a1b2c3d.jpg''
                  ''Add/Update farmers-market-0a1b2c3d.jpg'' ''jpgavif'' None,
                GetUrl ''https://x/missing.png'']\<rparr>)"
  by (simp add: example_events_def sync_defs folder_defs api_defs render_defs)



section \<open>A run without the credential\<close>

lemma gh_headers_missing:
  "GITHUB_TOKEN E \<in> {None, Some []} \<Longrightarrow>
     gh_headers E = Inl (RuntimeError ''Missing GITHUB_TOKEN environment variable.'')"
  by (auto simp: gh_headers_def)

lemma gh_put_file_missing:
  "GITHUB_TOKEN E \<in> {None, Some []} \<Longrightarrow>
     gh_put_file E path content_bytes message n =
       (Inl (RuntimeError ''Missing GITHUB_TOKEN environment variable.''), n)"
  by (simp add: gh_put_file_def gh_get_sha_def gh_headers_missing)

lemma gh_delete_file_missing:
  "GITHUB_TOKEN E \<in> {None, Some []} \<Longrightarrow>
     gh_delete_file E path message False n =
       (Inl (RuntimeError ''Missing GITHUB_TOKEN environment variable.''), n)"
  by (simp add: gh_delete_file_def gh_get_sha_def gh_headers_missing)

lemma upload_missing:
  assumes "GITHUB_TOKEN E \<in> {None, Some []}"
  shows "\<exists>e n'. upload E src title date n = (Inl e, n') \<and> calls n' = calls n @ [GetUrl src] \<and>
           (\<forall>code content x jpg. fst (send E (GetUrl src) n) = Reply code content x \<and>
              \<not> (400 \<le> code \<and> code < 600) \<and> to_jpg_bytes E content = Inr jpg \<longrightarrow>
              e = RuntimeError ''Missing GITHUB_TOKEN environment variable.'')"
proof -
  obtain r n1 where s: "send E (GetUrl src) n = (r, n1)"
    by (cases "send E (GetUrl src) n")
  from send_calls [OF s] have c: "calls n1 = calls n @ [GetUrl src]" .
  show ?thesis
  proof (cases r)
    case (Raised m)
    with s c show ?thesis by (simp add: upload_def)
  next
    case (Reply code content x)
    with s c assms show ?thesis
      by (cases "to_jpg_bytes E content") (auto simp: upload_def Let_def gh_put_file_missing)
  qed
qed

text \<open>
  Without the credential a turn of the loop leaves the manifest and the seen set alone,
  sends the fetch of the source image and nothing else, and annotates the event with
  \<open>image_jpg_error\<close>.
\<close>

lemma process_event_missing:
  assumes "GITHUB_TOKEN E \<in> {None, Some []}"
  shows "\<exists>ev' n'. process_event E now ev (updated_events, images, seen_paths, n) =
             (updated_events @ [ev'], images, seen_paths, n') \<and>
           (if truthy (py_get ev ''image'')
            then (\<exists>msg. ev' = AList.update ''image_jpg_error'' (Str msg) ev) \<and>
                 calls n' = calls n @ [GetUrl (or_empty (py_get ev ''image''))]
            else ev' = ev \<and> n' = n)"
proof (cases "truthy (py_get ev ''image'')")
  case False
  then show ?thesis by (simp add: process_event_def)
next
  case True
  from upload_missing [OF assms] obtain e n' where
    "upload E (or_empty (py_get ev ''image'')) (or_empty (py_get ev ''title''))
       (or_empty (py_get ev ''date'')) n = (Inl e, n')"
    and "calls n' = calls n @ [GetUrl (or_empty (py_get ev ''image''))]"
    by blast
  with True show ?thesis by (auto simp: process_event_def Let_def)
qed

lemma process_loop_missing:
  assumes "GITHUB_TOKEN E \<in> {None, Some []}"
  shows "\<exists>out n'. process_loop E now evs (updated_events, images, seen_paths, n) =
             (updated_events @ out, images, seen_paths, n') \<and>
           length out = length evs \<and>
           (\<forall>i < length evs.
              if truthy (py_get (evs ! i) ''image'')
              then \<exists>msg. out ! i = AList.update ''image_jpg_error'' (Str msg) (evs ! i)
              else out ! i = evs ! i) \<and>
           calls n' = calls n @
             map (\<lambda>ev. GetUrl (or_empty (py_get ev ''image'')))
               (filter (\<lambda>ev. truthy (py_get ev ''image'')) evs)"
proof (induction evs arbitrary: updated_events n)
  case Nil
  then show ?case by simp
next
  case (Cons ev evs)
  from process_event_missing [OF assms, of now ev updated_events images seen_paths n]
  obtain ev' n1 where
    s: "process_event E now ev (updated_events, images, seen_paths, n) =
         (updated_events @ [ev'], images, seen_paths, n1)"
    and e: "if truthy (py_get ev ''image'')
            then (\<exists>msg. ev' = AList.update ''image_jpg_error'' (Str msg) ev) \<and>
                 calls n1 = calls n @ [GetUrl (or_empty (py_get ev ''image''))]
            else ev' = ev \<and> n1 = n"
    by blast
  from Cons.IH [of "updated_events @ [ev']" n1] obtain out n' where
    l: "process_loop E now evs (updated_events @ [ev'], images, seen_paths, n1) =
         ((updated_events @ [ev']) @ out, images, seen_paths, n')"
    and len: "length out = length evs"
    and a: "\<forall>i < length evs.
              if truthy (py_get (evs ! i) ''image'')
              then \<exists>msg. out ! i = AList.update ''image_jpg_error'' (Str msg) (evs ! i)
              else out ! i = evs ! i"
    and c: "calls n' = calls n1 @
             map (\<lambda>ev. GetUrl (or_empty (py_get ev ''image'')))
               (filter (\<lambda>ev. truthy (py_get ev ''image'')) evs)"
    by blast
  have 1: "process_loop E now (ev # evs) (updated_events, images, seen_paths, n) =
      (updated_events @ (ev' # out), images, seen_paths, n')"
    using s l by simp
  have 2: "length (ev' # out) = length (ev # evs)"
    using len by simp
  have 3: "\<forall>i < length (ev # evs).
              if truthy (py_get ((ev # evs) ! i) ''image'')
              then \<exists>msg. (ev' # out) ! i = AList.update ''image_jpg_error'' (Str msg) ((ev # evs) ! i)
              else (ev' # out) ! i = (ev # evs) ! i"
  proof (intro allI impI)
    fix i assume "i < length (ev # evs)"
    then show "if truthy (py_get ((ev # evs) ! i) ''image'')
              then \<exists>msg. (ev' # out) ! i = AList.update ''image_jpg_error'' (Str msg) ((ev # evs) ! i)
              else (ev' # out) ! i = (ev # evs) ! i"
      using e a by (cases i) (auto split: if_splits)
  qed
  have 4: "calls n' = calls n @
             map (\<lambda>ev. GetUrl (or_empty (py_get ev ''image'')))
               (filter (\<lambda>ev. truthy (py_get ev ''image'')) (ev # evs))"
    using e c by (auto split: if_splits)
  from 1 2 3 4 show ?case by blast
qed

lemma delete_loop_dry_run:
  "delete_loop E rd True paths deleted images n = (Inr (deleted @ paths), images, n)"
  by (induction paths arbitrary: deleted) (simp_all add: gh_delete_file_def)

lemma prune_old_missing:
  assumes "GITHUB_TOKEN E \<in> {None, Some []}"
  shows "\<exists>r. prune_old E images seen_paths utcnow rd dry_run n = (r, images, n) \<and>
           (\<forall>e. r = Inl e \<longrightarrow>
              e = RuntimeError ''Missing GITHUB_TOKEN environment variable.'' \<or>
              cutoff_iso utcnow rd = Inl e)"
proof (cases "cutoff_iso utcnow rd")
  case (Inl e)
  then show ?thesis by (simp add: prune_old_def)
next
  case (Inr cutoff)
  show ?thesis
  proof (cases dry_run)
    case True
    with Inr show ?thesis by (simp add: prune_old_def delete_loop_dry_run)
  next
    case False
    with Inr assms show ?thesis
      by (cases "to_delete images seen_paths cutoff")
        (simp_all add: prune_old_def gh_delete_file_missing)
  qed
qed

text \<open>
  C9 (as the code has it). The credential is read by \<open>gh_headers\<close>, which is called only
  where a request to the contents API is built. So a run without it does fail, but not at
  once: the manifest is fetched, every event with an image has its source fetched, and in
  the loop the missing credential is caught like any other failure of the event: the event
  is annotated with \<open>image_jpg_error\<close> (with the text of the missing credential when the
  fetch and the conversion succeeded), the manifest is left as loaded, and the output file
  is written. No request to the contents API is sent. The run then ends with an exception:
  that of the missing credential, raised by the first live delete or by the manifest save,
  unless the cutoff computation raised before.
\<close>

theorem run_without_credential:
  assumes "GITHUB_TOKEN E \<in> {None, Some []}"
    and "R = main E events prune retention dry_run t1 t2 n"
  shows "run_failure R \<noteq> None \<and>
    (\<forall>images n1. load_manifest E n = (Inr images, n1) \<longrightarrow>
       calls (run_net R) = calls n @ GetRawManifest #
         map (\<lambda>ev. GetUrl (or_empty (py_get ev ''image'')))
           (filter (\<lambda>ev. truthy (py_get ev ''image'')) events) \<and>
       run_manifest R = images \<and>
       (\<exists>out. run_events R = Some out \<and> length out = length events \<and>
          (\<forall>i < length events.
             if truthy (py_get (events ! i) ''image'')
             then \<exists>msg. out ! i = AList.update ''image_jpg_error'' (Str msg) (events ! i)
             else out ! i = events ! i)) \<and>
       (run_failure R = Some (RuntimeError ''Missing GITHUB_TOKEN environment variable.'') \<or>
        prune \<and> cutoff_iso t2 retention = Inl (case run_failure R of Some e \<Rightarrow> e))) \<and>
    (\<forall>ev now u im sn n0 code content x jpg.
       truthy (py_get ev ''image'') \<and>
       fst (send E (GetUrl (or_empty (py_get ev ''image''))) n0) = Reply code content x \<and>
       \<not> (400 \<le> code \<and> code < 600) \<and> to_jpg_bytes E content = Inr jpg \<longrightarrow>
       fst (process_event E now ev (u, im, sn, n0)) =
         u @ [AList.update ''image_jpg_error''
                (Str ''Missing GITHUB_TOKEN environment variable.'') ev])"
proof -
  have step: "fst (process_event E now ev (u, im, sn, n0)) =
         u @ [AList.update ''image_jpg_error''
                (Str ''Missing GITHUB_TOKEN environment variable.'') ev]"
    if h: "truthy (py_get ev ''image'') \<and>
       fst (send E (GetUrl (or_empty (py_get ev ''image''))) n0) = Reply code content x \<and>
       \<not> (400 \<le> code \<and> code < 600) \<and> to_jpg_bytes E content = Inr jpg"
    for ev now u im sn n0 code content x jpg
  proof -
    from upload_missing [OF assms(1), of "or_empty (py_get ev ''image'')"
        "or_empty (py_get ev ''title'')" "or_empty (py_get ev ''date'')" n0] h
    obtain n' where "upload E (or_empty (py_get ev ''image'')) (or_empty (py_get ev ''title''))
        (or_empty (py_get ev ''date'')) n0 =
        (Inl (RuntimeError ''Missing GITHUB_TOKEN environment variable.''), n')"
      by blast
    with h show ?thesis by (simp add: process_event_def Let_def)
  qed
  then have C: "\<forall>ev now u im sn n0 code content x jpg.
       truthy (py_get ev ''image'') \<and>
       fst (send E (GetUrl (or_empty (py_get ev ''image''))) n0) = Reply code content x \<and>
       \<not> (400 \<le> code \<and> code < 600) \<and> to_jpg_bytes E content = Inr jpg \<longrightarrow>
       fst (process_event E now ev (u, im, sn, n0)) =
         u @ [AList.update ''image_jpg_error''
                (Str ''Missing GITHUB_TOKEN environment variable.'') ev]"
    by blast
  obtain l n1 where load: "load_manifest E n = (l, n1)"
    by (cases "load_manifest E n")
  show ?thesis
  proof (cases l)
    case (Inl e)
    with load assms(2) have "run_failure R = Some e"
      by (simp add: main_load_raises)
    then have A: "run_failure R \<noteq> None" by simp
    from Inl load have B: "\<forall>images n1. load_manifest E n = (Inr images, n1) \<longrightarrow>
       calls (run_net R) = calls n @ GetRawManifest #
         map (\<lambda>ev. GetUrl (or_empty (py_get ev ''image'')))
           (filter (\<lambda>ev. truthy (py_get ev ''image'')) events) \<and>
       run_manifest R = images \<and>
       (\<exists>out. run_events R = Some out \<and> length out = length events \<and>
          (\<forall>i < length events.
             if truthy (py_get (events ! i) ''image'')
             then \<exists>msg. out ! i = AList.update ''image_jpg_error'' (Str msg) (events ! i)
             else out ! i = events ! i)) \<and>
       (run_failure R = Some (RuntimeError ''Missing GITHUB_TOKEN environment variable.'') \<or>
        prune \<and> cutoff_iso t2 retention = Inl (case run_failure R of Some e \<Rightarrow> e))"
      by simp
    show ?thesis by (rule conjI [OF A conjI [OF B C]])
  next
    case (Inr images)
    have c1: "calls n1 = calls n @ [GetRawManifest]"
      using load Inr
      by (auto simp: load_manifest_def split: prod.splits response.splits dest: send_calls)
    from process_loop_missing [OF assms(1), of "now_iso t1" events "[]" images "{}" n1]
    obtain out n2 where
      l: "process_loop E (now_iso t1) events ([], images, {}, n1) = (out, images, {}, n2)"
      and len: "length out = length events"
      and a: "\<forall>i < length events.
              if truthy (py_get (events ! i) ''image'')
              then \<exists>msg. out ! i = AList.update ''image_jpg_error'' (Str msg) (events ! i)
              else out ! i = events ! i"
      and c2: "calls n2 = calls n1 @
             map (\<lambda>ev. GetUrl (or_empty (py_get ev ''image'')))
               (filter (\<lambda>ev. truthy (py_get ev ''image'')) events)"
      by auto
    have pe: "process_events E events t1 n = (Inr (out, images, {}), n2)"
      using load Inr l by (simp add: process_events_def)
    from prune_old_missing [OF assms(1), of images "{}" t2 retention dry_run n2]
    obtain r where
      po: "prune_old E images {} t2 retention dry_run n2 = (r, images, n2)"
      and pr: "\<forall>e. r = Inl e \<longrightarrow>
              e = RuntimeError ''Missing GITHUB_TOKEN environment variable.'' \<or>
              cutoff_iso t2 retention = Inl e"
      by blast
    have sv: "save_manifest E images n2 =
        (Inl (RuntimeError ''Missing GITHUB_TOKEN environment variable.''), n2)"
      by (simp add: save_manifest_def gh_put_file_missing [OF assms(1)])
    have R: "run_events R = Some out \<and> run_manifest R = images \<and> run_net R = n2 \<and>
        (run_failure R = Some (RuntimeError ''Missing GITHUB_TOKEN environment variable.'') \<or>
         prune \<and> (\<exists>e. run_failure R = Some e \<and> cutoff_iso t2 retention = Inl e))"
    proof (cases prune)
      case False
      with assms(2) pe sv show ?thesis by (simp add: main_def)
    next
      case True
      show ?thesis
      proof (cases r)
        case (Inl e)
        with True assms(2) pe po pr show ?thesis by (auto simp: main_def)
      next
        case (Inr ds)
        with True assms(2) pe po sv show ?thesis by (simp add: main_def)
      qed
    qed
    then have A: "run_failure R \<noteq> None" by auto
    from R have g: "run_failure R = Some (RuntimeError ''Missing GITHUB_TOKEN environment variable.'') \<or>
        prune \<and> cutoff_iso t2 retention = Inl (case run_failure R of Some e \<Rightarrow> e)"
      by auto
    have c: "calls (run_net R) = calls n @ GetRawManifest #
         map (\<lambda>ev. GetUrl (or_empty (py_get ev ''image'')))
           (filter (\<lambda>ev. truthy (py_get ev ''image'')) events)"
      using R c1 c2 by simp
    have o: "\<exists>out. run_events R = Some out \<and> length out = length events \<and>
          (\<forall>i < length events.
             if truthy (py_get (events ! i) ''image'')
             then \<exists>msg. out ! i = AList.update ''image_jpg_error'' (Str msg) (events ! i)
             else out ! i = events ! i)"
      using R len a by blast
    from R have m: "run_manifest R = images" by simp
    have B: "\<forall>images n1. load_manifest E n = (Inr images, n1) \<longrightarrow>
       calls (run_net R) = calls n @ GetRawManifest #
         map (\<lambda>ev. GetUrl (or_empty (py_get ev ''image'')))
           (filter (\<lambda>ev. truthy (py_get ev ''image'')) events) \<and>
       run_manifest R = images \<and>
       (\<exists>out. run_events R = Some out \<and> length out = length events \<and>
          (\<forall>i < length events.
             if truthy (py_get (events ! i) ''image'')
             then \<exists>msg. out ! i = AList.update ''image_jpg_error'' (Str msg) (events ! i)
             else out ! i = events ! i)) \<and>
       (run_failure R = Some (RuntimeError ''Missing GITHUB_TOKEN environment variable.'') \<or>
        prune \<and> cutoff_iso t2 retention = Inl (case run_failure R of Some e \<Rightarrow> e))"
      using load Inr c m o g by simp
    show ?thesis by (rule conjI [OF A conjI [OF B C]])
  qed
qed

lemma example_load_no_token:
  "load_manifest ((example_env 404 200)\<lparr>GITHUB_TOKEN := None\<rparr>) net0 =
     (Inr [], \<lparr>remote = (), calls = [GetRawManifest]\<rparr>)"
  by (simp add: load_manifest_def api_defs)

theorem run_without_credential_witness:
  "GITHUB_TOKEN ((example_env 404 200)\<lparr>GITHUB_TOKEN := None\<rparr>) \<in> {None, Some []} \<and>
   run_failure (main ((example_env 404 200)\<lparr>GITHUB_TOKEN := None\<rparr>) example_events
       False 60 False example_utcnow example_utcnow net0) \<noteq> None \<and>
   calls (run_net (main ((example_env 404 200)\<lparr>GITHUB_TOKEN := None\<rparr>) example_events
       False 60 False example_utcnow example_utcnow net0)) =
     [GetRawManifest, GetUrl ''https://x/a.png'', GetUrl ''https://x/missing.png''] \<and>
   run_manifest (main ((example_env 404 200)\<lparr>GITHUB_TOKEN := None\<rparr>) example_events
       False 60 False example_utcnow example_utcnow net0) = []"
proof -
  have t: "GITHUB_TOKEN ((example_env 404 200)\<lparr>GITHUB_TOKEN := None\<rparr>) \<in> {None, Some []}"
    by simp
  have f: "map (\<lambda>ev. GetUrl (or_empty (py_get ev ''image'')))
      (filter (\<lambda>ev. truthy (py_get ev ''image'')) example_events) =
      [GetUrl ''https://x/a.png'', GetUrl ''https://x/missing.png'']"
    by (simp add: example_events_def py_get_def)
  from run_without_credential [OF t refl, of example_events False 60 False example_utcnow
      example_utcnow net0] example_load_no_token f t
  show ?thesis
    by (simp add: net0_def)
qed

text \<open>
  The claim as the specification states it fails: without the credential, the manifest
  and both source images are fetched, the first event is annotated with the text of the
  missing credential as its \<open>image_jpg_error\<close>, the output is written, and only then
  does the run end with the exception, raised by the manifest save.
\<close>

theorem run_without_credential_counterexample:
  "main ((example_env 404 200)\<lparr>GITHUB_TOKEN := None\<rparr>) example_events
       False 60 False example_utcnow example_utcnow net0 =
     \<lparr>run_failure = Some (RuntimeError ''Missing GITHUB_TOKEN environment variable.''),
      run_events = Some
        [[(''title'', Str ''Farmers Market''), (''date'', Str ''Sat, 06 Sep 2025''),
          (''image'', Str ''https://x/a.png''),
          (''image_jpg_error'', Str ''Missing GITHUB_TOKEN environment variable.'')],
         [(''title'', Str ''Fair''), (''date'', Null), (''image'', Str ''https://x/missing.png''),
          (''image_jpg_error'', Str ''404 Error for url: https://x/missing.png'')],
         [(''title'', Str ''Picnic''), (''date'', Str ''Sun, 07 Sep 2025''), (''image'', Null)]],
      run_deleted = [], run_manifest = [],
      run_net = \<lparr>remote = (),
        calls = [GetRawManifest, GetUrl ''https://x/a.png'', GetUrl ''https://x/missing.png'']\<rparr>\<rparr>"
  by (simp add: main_def save_manifest_def MANIFEST_PATH_def example_events_def sync_defs
      folder_defs api_defs render_defs)

section \<open>The sync pass: bookkeeping of the manifest\<close>





















section \<open>The string order on ISO timestamps is the time order\<close>

lemma digit_char_less: "a < 10 \<Longrightarrow> b < 10 \<Longrightarrow> digit_char a < digit_char b \<longleftrightarrow> a < b"
  by (simp add: digit_char_def less_char_def)

lemma digit_char_eq: "a < 10 \<Longrightarrow> b < 10 \<Longrightarrow> digit_char a = digit_char b \<longleftrightarrow> a = b"
proof -
  assume "a < 10" "b < 10"
  then have "of_char (digit_char a) = 48 + a" "of_char (digit_char b) = 48 + b"
    by (simp_all add: digit_char_def)
  then show ?thesis by (metis add_left_cancel)
qed

lemma less_by_digits:
  fixes a b :: nat
  shows "a < b \<longleftrightarrow> a div 10 < b div 10 \<or> a div 10 = b div 10 \<and> a mod 10 < b mod 10"
proof -
  have "a = 10 * (a div 10) + a mod 10" "b = 10 * (b div 10) + b mod 10" by simp_all
  moreover have "a mod 10 < 10" "b mod 10 < 10" by simp_all
  ultimately show ?thesis by linarith
qed

lemma eq_by_digits:
  fixes a b :: nat
  shows "a = b \<longleftrightarrow> a div 10 = b div 10 \<and> a mod 10 = b mod 10"
  by (metis div_mult_mod_eq)

lemma zero_pad_2:
  "n < 100 \<Longrightarrow> zero_pad 2 n = [digit_char (n div 10), digit_char (n mod 10)]"
proof -
  assume n: "n < 100"
  have z: "digit_char 0 = CHR ''0''" by (simp add: digit_char_code)
  show ?thesis
  proof (cases "n < 10")
    case True
    then show ?thesis by (simp add: zero_pad_def str_nat.simps [of n] z)
  next
    case False
    with n have "n div 10 < 10" by simp
    with False show ?thesis
      by (simp add: zero_pad_def str_nat.simps [of n] str_nat.simps [of "n div 10"])
  qed
qed

lemma pad2_less:
  assumes "a < 100" "b < 100"
  shows "zero_pad 2 a @ s < zero_pad 2 b @ t \<longleftrightarrow> a < b \<or> a = b \<and> s < t"
proof -
  have d: "a div 10 < 10" "b div 10 < 10" "a mod 10 < 10" "b mod 10 < 10"
    using assms by simp_all
  have "zero_pad 2 a @ s < zero_pad 2 b @ t \<longleftrightarrow>
      a div 10 < b div 10 \<or> a div 10 = b div 10 \<and>
        (a mod 10 < b mod 10 \<or> a mod 10 = b mod 10 \<and> s < t)"
    using assms d by (simp add: zero_pad_2 digit_char_less digit_char_eq)
  also have "\<dots> \<longleftrightarrow> a < b \<or> a = b \<and> s < t"
    using less_by_digits [of a b] eq_by_digits [of a b] by blast
  finally show ?thesis .
qed

lemma zero_pad_4:
  "n < 10000 \<Longrightarrow> zero_pad 4 n =
     [digit_char (n div 1000), digit_char (n div 100 mod 10), digit_char (n div 10 mod 10),
      digit_char (n mod 10)]"
proof -
  assume n: "n < 10000"
  have z: "digit_char 0 = CHR ''0''" by (simp add: digit_char_code)
  have r3: "replicate 3 (CHR ''0'') = ''000''" and r2: "replicate 2 (CHR ''0'') = ''00''"
    by (simp_all add: numeral_3_eq_3 numeral_2_eq_2)
  have e: "n div 10 div 10 = n div 100" "n div 10 div 10 div 10 = n div 1000"
    by (simp_all add: div_mult2_eq)
  consider "n < 10" | "10 \<le> n \<and> n < 100" | "100 \<le> n \<and> n < 1000" | "1000 \<le> n"
    by linarith
  then show ?thesis
  proof cases
    case 1
    then have s: "str_nat n = [digit_char n]"
      by (simp add: str_nat.simps [of n])
    from 1 have "n div 1000 = 0" "n div 100 = 0" "n div 10 = 0" by simp_all
    with 1 s show ?thesis by (simp add: zero_pad_def z r3)
  next
    case 2
    then have b: "\<not> n < 10" "n div 10 < 10" by auto
    then have s: "str_nat n = [digit_char (n div 10), digit_char (n mod 10)]"
      by (simp add: str_nat.simps [of n] str_nat.simps [of "n div 10"])
    from 2 have "n div 1000 = 0" "n div 100 = 0" by simp_all
    with b s show ?thesis by (simp add: zero_pad_def z r2)
  next
    case 3
    then have b: "\<not> n < 10" "\<not> n div 10 < 10" "n div 100 < 10" by auto
    then have s: "str_nat n =
        [digit_char (n div 100), digit_char (n div 10 mod 10), digit_char (n mod 10)]"
      using e by (simp add: str_nat.simps [of n] str_nat.simps [of "n div 10"]
          str_nat.simps [of "n div 100"])
    from 3 have "n div 1000 = 0" by simp
    with b s show ?thesis by (simp add: zero_pad_def z)
  next
    case 4
    with n have b: "\<not> n < 10" "\<not> n div 10 < 10" "\<not> n div 100 < 10" "n div 1000 < 10"
      by auto
    then have s: "str_nat n =
        [digit_char (n div 1000), digit_char (n div 100 mod 10), digit_char (n div 10 mod 10),
         digit_char (n mod 10)]"
      using e by (simp add: str_nat.simps [of n] str_nat.simps [of "n div 10"]
          str_nat.simps [of "n div 100"] str_nat.simps [of "n div 1000"])
    then show ?thesis by (simp add: zero_pad_def)
  qed
qed

lemma pad4_less:
  assumes "a < 10000" "b < 10000"
  shows "zero_pad 4 a @ s < zero_pad 4 b @ t \<longleftrightarrow> a < b \<or> a = b \<and> s < t"
proof -
  have d: "a div 1000 < 10" "b div 1000 < 10" "a div 100 mod 10 < 10" "b div 100 mod 10 < 10"
    "a div 10 mod 10 < 10" "b div 10 mod 10 < 10" "a mod 10 < 10" "b mod 10 < 10"
    using assms by simp_all
  have e: "\<And>n::nat. n div 10 div 10 = n div 100" "\<And>n::nat. n div 100 div 10 = n div 1000"
    by (simp_all add: div_mult2_eq)
  have "zero_pad 4 a @ s < zero_pad 4 b @ t \<longleftrightarrow>
      a div 1000 < b div 1000 \<or> a div 1000 = b div 1000 \<and>
        (a div 100 mod 10 < b div 100 mod 10 \<or> a div 100 mod 10 = b div 100 mod 10 \<and>
          (a div 10 mod 10 < b div 10 mod 10 \<or> a div 10 mod 10 = b div 10 mod 10 \<and>
            (a mod 10 < b mod 10 \<or> a mod 10 = b mod 10 \<and> s < t)))"
    using assms d by (simp add: zero_pad_4 digit_char_less digit_char_eq)
  also have "\<dots> \<longleftrightarrow> a div 100 < b div 100 \<or> a div 100 = b div 100 \<and>
          (a div 10 mod 10 < b div 10 mod 10 \<or> a div 10 mod 10 = b div 10 mod 10 \<and>
            (a mod 10 < b mod 10 \<or> a mod 10 = b mod 10 \<and> s < t))"
    using less_by_digits [of "a div 100" "b div 100"] eq_by_digits [of "a div 100" "b div 100"]
    unfolding e by blast
  also have "\<dots> \<longleftrightarrow> a div 10 < b div 10 \<or> a div 10 = b div 10 \<and>
            (a mod 10 < b mod 10 \<or> a mod 10 = b mod 10 \<and> s < t)"
    using less_by_digits [of "a div 10" "b div 10"] eq_by_digits [of "a div 10" "b div 10"]
    unfolding e by blast
  also have "\<dots> \<longleftrightarrow> a < b \<or> a = b \<and> s < t"
    using less_by_digits [of a b] eq_by_digits [of a b] by blast
  finally show ?thesis .
qed

lemma isoformat_Z_less:
  assumes "fits a" "fits b"
  shows "isoformat_Z a < isoformat_Z b \<longleftrightarrow> earlier a b"
  using assms
  by (simp add: isoformat_Z_def fits_def earlier_def pad4_less pad2_less)

lemma days_in_month_bounds: "28 \<le> days_in_month y m \<and> days_in_month y m \<le> 31"
  by (simp add: days_in_month_def)

lemma days_before_month_Suc:
  "0 < m \<Longrightarrow> days_before_month y (Suc m) = days_before_month y m + days_in_month y m"
  by (simp add: days_before_month_def)

lemma days_before_month_lower: "28 * (m - 1) \<le> days_before_month y m"
proof (induction m)
  case 0
  then show ?case by simp
next
  case (Suc m)
  show ?case
  proof (cases "m = 0")
    case True
    then show ?thesis by simp
  next
    case False
    then have "days_before_month y (Suc m) = days_before_month y m + days_in_month y m"
      by (simp add: days_before_month_Suc)
    moreover from False have "28 * (Suc m - 1) = 28 * (m - 1) + 28"
      by (cases m) simp_all
    ultimately show ?thesis
      using Suc days_in_month_bounds [of y m] by linarith
  qed
qed

text \<open>
  The date that \<open>fromordinal\<close> computes for an ordinal of the years 1 to 9999 fits the
  widths of the ISO rendering.
\<close>

lemma fromordinal_fits:
  assumes "0 < n" "n \<le> MAXORDINAL" "fromordinal n = (y, m, d)"
  shows "y < 10000 \<and> m < 100 \<and> d < 100"
proof -
  define n0 where "n0 = n - 1"
  define n400 where "n400 = n0 div 146097"
  define r400 where "r400 = n0 mod 146097"
  define n100 where "n100 = r400 div 36524"
  define r100 where "r100 = r400 mod 36524"
  define n4 where "n4 = r100 div 1461"
  define r4 where "r4 = r100 mod 1461"
  define n1 where "n1 = r4 div 365"
  define r1 where "r1 = r4 mod 365"
  define yy where "yy = n400 * 400 + 1 + n100 * 100 + n4 * 4 + n1"
  define mm where "mm = (r1 + 50) div 32"
  have b0: "n0 \<le> 3652058"
    using assms(1,2) by (simp add: n0_def MAXORDINAL_def)
  have e1: "n0 = 146097 * n400 + r400" and b1: "r400 < 146097"
    by (simp_all add: n400_def r400_def)
  have e2: "r400 = 36524 * n100 + r100" and b2: "r100 < 36524"
    by (simp_all add: n100_def r100_def)
  have e3: "r100 = 1461 * n4 + r4" and b3: "r4 < 1461"
    by (simp_all add: n4_def r4_def)
  have e4: "r4 = 365 * n1 + r1" and b4: "r1 < 365"
    by (simp_all add: n1_def r1_def)
  have c: "n100 \<le> 4" "n4 \<le> 24" "n1 \<le> 4"
    using e2 b1 e3 b2 e4 b3 by linarith+
  have yb: "yy \<le> 10000"
    using b0 e1 e2 e3 e4 c unfolding yy_def by linarith
  have ys: "yy < 10000" if "n1 \<noteq> 4" "n100 \<noteq> 4"
  proof -
    from that c have "n1 \<le> 3" "n100 \<le> 3" by simp_all
    with b0 e1 e2 e3 e4 c show ?thesis unfolding yy_def by linarith
  qed
  have mb: "mm \<le> 12"
    using b4 by (simp add: mm_def)
  have f: "fromordinal n =
      (if n1 = 4 \<or> n100 = 4 then (yy - 1, 12, 31)
       else if days_before_month yy mm > r1
            then (yy, mm - 1, Suc (r1 - (days_before_month yy mm - days_in_month yy (mm - 1))))
            else (yy, mm, Suc (r1 - days_before_month yy mm)))"
    unfolding fromordinal_def Let_def yy_def mm_def r1_def n1_def r4_def n4_def r100_def
      n100_def r400_def n400_def n0_def
    by (rule refl)
  show ?thesis
  proof (cases "n1 = 4 \<or> n100 = 4")
    case True
    with f have "fromordinal n = (yy - 1, 12, 31)"
      by simp
    with assms(3) have "y = yy - 1" "m = 12" "d = 31"
      by auto
    with yb show ?thesis by simp
  next
    case False
    with ys have y: "yy < 10000" by simp
    show ?thesis
    proof (cases "days_before_month yy mm > r1")
      case True
      have "mm \<noteq> 0 \<and> mm \<noteq> 1"
      proof (intro conjI notI)
        assume "mm = 0"
        with True show False by (simp add: days_before_month_def)
      next
        assume "mm = 1"
        with True show False by (simp add: days_before_month_def)
      qed
      then have "days_before_month yy mm =
          days_before_month yy (mm - 1) + days_in_month yy (mm - 1)"
        using days_before_month_Suc [of "mm - 1" yy] by simp
      with True days_in_month_bounds [of yy "mm - 1"]
      have db: "r1 - (days_before_month yy mm - days_in_month yy (mm - 1)) < 31"
        by linarith
      from f False True have "fromordinal n =
          (yy, mm - 1, Suc (r1 - (days_before_month yy mm - days_in_month yy (mm - 1))))"
        by simp
      with assms(3) have "y = yy" "m = mm - 1"
        "d = Suc (r1 - (days_before_month yy mm - days_in_month yy (mm - 1)))"
        by auto
      with y mb db show ?thesis by simp
    next
      case F2: False
      have "r1 + 50 = 32 * mm + (r1 + 50) mod 32" "(r1 + 50) mod 32 < 32"
        unfolding mm_def by simp_all
      with days_before_month_lower [of mm yy] mb
      have db: "r1 - days_before_month yy mm < 99"
        by linarith
      from f False F2 have "fromordinal n = (yy, mm, Suc (r1 - days_before_month yy mm))"
        by simp
      with assms(3) have "y = yy" "m = mm" "d = Suc (r1 - days_before_month yy mm)"
        by auto
      with y mb db show ?thesis by simp
    qed
  qed
qed

lemma minus_days_fits:
  assumes "minus_days t k = Inr c" "hour t < 100" "minute t < 100" "second t < 100"
  shows "fits (c\<lparr>microsecond := 0\<rparr>)"
proof -
  obtain y m d where f: "fromordinal (nat (int (toordinal t) - k)) = (y, m, d)"
    by (cases "fromordinal (nat (int (toordinal t) - k))") auto
  have o: "0 < int (toordinal t) - k \<and> int (toordinal t) - k \<le> int MAXORDINAL"
    using assms(1) unfolding minus_days_def Let_def by (simp split: if_splits)
  then have c: "c = t\<lparr>year := y, month := m, day := d\<rparr>"
    using assms(1) f unfolding minus_days_def Let_def by (simp split: if_splits)
  from o have "0 < nat (int (toordinal t) - k)" "nat (int (toordinal t) - k) \<le> MAXORDINAL"
    by linarith+
  from fromordinal_fits [OF this f] c assms(2-4) show ?thesis
    by (simp add: fits_def)
qed

lemma isoformat_Z_nonempty: "isoformat_Z t \<noteq> []"
  by (simp add: isoformat_Z_def)

lemma earlier_microsecond: "earlier a (b\<lparr>microsecond := u\<rparr>) = earlier a b"
  by (simp add: earlier_def)

text \<open>
  C2. For an entry of the manifest (a dictionary: its keys are distinct) that is neither
  protected nor seen, \<open>prune_old\<close> puts its path on the list \<open>to_delete\<close> exactly when its
  \<open>last_seen\<close> is a non-empty string strictly below the cutoff string in Python's string
  order, the cutoff being the ISO rendering of the clock reading minus the retention days.
  An entry whose \<open>last_seen\<close> equals the cutoff is not a candidate. On timestamps the
  string order is the time order: when \<open>last_seen\<close> is the ISO rendering of a reading
  \<open>t\<close>, the entry is a candidate exactly when \<open>t\<close> is earlier, to the second, than the
  clock reading minus the retention days. (A clock reading has its hour below 24 and its
  minute and second below 60, so it fits.)
\<close>

theorem prune_candidate_iff_strictly_older:
  assumes "distinct (map fst images)"
    and "(path, rec) \<in> set images"
    and "\<not> is_protected path"
    and "path \<notin> seen_paths"
    and "cutoff_iso utcnow retention_days = Inr cutoff"
  shows "prune_old E images seen_paths utcnow retention_days dry_run n =
           delete_loop E retention_days dry_run (to_delete images seen_paths cutoff) [] images n \<and>
         (path \<in> set (to_delete images seen_paths cutoff) \<longleftrightarrow>
            (\<exists>ls. py_get rec ''last_seen'' = Str ls \<and> ls \<noteq> [] \<and> ls < cutoff)) \<and>
         (py_get rec ''last_seen'' = Str cutoff \<longrightarrow>
            path \<notin> set (to_delete images seen_paths cutoff)) \<and>
         (\<forall>t. fits t \<and> fits utcnow \<and> py_get rec ''last_seen'' = Str (isoformat_Z t) \<longrightarrow>
            (\<exists>cutoff_dt. minus_days utcnow retention_days = Inr cutoff_dt \<and>
               (path \<in> set (to_delete images seen_paths cutoff) \<longleftrightarrow> earlier t cutoff_dt)))"
proof -
  have a: "prune_old E images seen_paths utcnow retention_days dry_run n =
      delete_loop E retention_days dry_run (to_delete images seen_paths cutoff) [] images n"
    using assms(5) by (simp add: prune_old_def)
  have "path \<in> set (to_delete images seen_paths cutoff) \<longleftrightarrow>
      (\<exists>rec'. (path, rec') \<in> set images \<and> truthy (py_get rec' ''last_seen'') \<and>
         or_empty (py_get rec' ''last_seen'') < cutoff)"
    using assms(3,4) by (simp add: to_delete_iff)
  also have "\<dots> \<longleftrightarrow>
      truthy (py_get rec ''last_seen'') \<and> or_empty (py_get rec ''last_seen'') < cutoff"
    using assms(2) entry_unique [OF assms(1,2)] by blast
  also have "\<dots> \<longleftrightarrow> (\<exists>ls. py_get rec ''last_seen'' = Str ls \<and> ls \<noteq> [] \<and> ls < cutoff)"
    by (cases "py_get rec ''last_seen''") auto
  finally have b: "path \<in> set (to_delete images seen_paths cutoff) \<longleftrightarrow>
      (\<exists>ls. py_get rec ''last_seen'' = Str ls \<and> ls \<noteq> [] \<and> ls < cutoff)" .
  from b have c: "py_get rec ''last_seen'' = Str cutoff \<longrightarrow>
      path \<notin> set (to_delete images seen_paths cutoff)"
    by auto
  obtain cutoff_dt where m: "minus_days utcnow retention_days = Inr cutoff_dt"
    and r: "cutoff = isoformat_Z (cutoff_dt\<lparr>microsecond := 0\<rparr>)"
    using assms(5) by (auto simp: cutoff_iso_def split: sum.splits)
  have d: "\<exists>cutoff_dt. minus_days utcnow retention_days = Inr cutoff_dt \<and>
      (path \<in> set (to_delete images seen_paths cutoff) \<longleftrightarrow> earlier t cutoff_dt)"
    if h: "fits t \<and> fits utcnow \<and> py_get rec ''last_seen'' = Str (isoformat_Z t)" for t
  proof -
    from h have "fits (cutoff_dt\<lparr>microsecond := 0\<rparr>)"
      using minus_days_fits [OF m] by (simp add: fits_def)
    with h r have "isoformat_Z t < cutoff \<longleftrightarrow> earlier t cutoff_dt"
      by (simp add: isoformat_Z_less earlier_microsecond)
    with b h have "path \<in> set (to_delete images seen_paths cutoff) \<longleftrightarrow> earlier t cutoff_dt"
      by (simp add: isoformat_Z_nonempty)
    with m show ?thesis by blast
  qed
  from d have d': "\<forall>t. fits t \<and> fits utcnow \<and> py_get rec ''last_seen'' = Str (isoformat_Z t) \<longrightarrow>
            (\<exists>cutoff_dt. minus_days utcnow retention_days = Inr cutoff_dt \<and>
               (path \<in> set (to_delete images seen_paths cutoff) \<longleftrightarrow> earlier t cutoff_dt))"
    by blast
  show ?thesis
    by (rule conjI [OF a conjI [OF b conjI [OF c d']]])
qed

theorem prune_candidate_iff_strictly_older_witness:
  "''img/2025/05/old.jpg'' \<in> set (to_delete example_manifest example_seen ''2025-07-08T12:03:04Z'') \<and>
   ''2025-05-01T00:00:00Z'' < ''2025-07-08T12:03:04Z'' \<and>
   ''img/2025/07/edge.jpg'' \<notin> set (to_delete example_manifest example_seen ''2025-07-08T12:03:04Z'') \<and>
   \<not> ''2025-07-08T12:03:04Z'' < ''2025-07-08T12:03:04Z'' \<and>
   minus_days example_utcnow 60 = Inr (example_utcnow\<lparr>month := 7, day := 8\<rparr>) \<and>
   earlier \<lparr>year = 2025, month = 5, day = 1, hour = 0, minute = 0, second = 0, microsecond = 0\<rparr>
     (example_utcnow\<lparr>month := 7, day := 8\<rparr>) \<and>
   \<not> earlier \<lparr>year = 2025, month = 7, day = 8, hour = 12, minute = 3, second = 4, microsecond = 0\<rparr>
     (example_utcnow\<lparr>month := 7, day := 8\<rparr>)"
proof -
  have old: "(''img/2025/05/old.jpg'', [(''first_added'', Str ''2025-05-01T00:00:00Z''),
      (''last_seen'', Str ''2025-05-01T00:00:00Z'')]) \<in> set example_manifest"
    by (simp add: example_manifest_def)
  have edge: "(''img/2025/07/edge.jpg'', [(''first_added'', Str ''2025-07-01T00:00:00Z''),
      (''last_seen'', Str ''2025-07-08T12:03:04Z'')]) \<in> set example_manifest"
    by (simp add: example_manifest_def)
  have o1: "\<not> is_protected ''img/2025/05/old.jpg''" and o2: "''img/2025/05/old.jpg'' \<notin> example_seen"
    and e1: "\<not> is_protected ''img/2025/07/edge.jpg''" and e2: "''img/2025/07/edge.jpg'' \<notin> example_seen"
    by (simp_all add: protect_defs example_seen_def)
  have m: "minus_days example_utcnow 60 = Inr (example_utcnow\<lparr>month := 7, day := 8\<rparr>)"
    by (simp add: example_utcnow_def calendar_defs)
  have f: "fits \<lparr>year = 2025, month = 5, day = 1, hour = 0, minute = 0, second = 0, microsecond = 0\<rparr>"
    "fits \<lparr>year = 2025, month = 7, day = 8, hour = 12, minute = 3, second = 4, microsecond = 0\<rparr>"
    "fits example_utcnow"
    by (simp_all add: fits_def example_utcnow_def)
  have i: "isoformat_Z \<lparr>year = 2025, month = 5, day = 1, hour = 0, minute = 0, second = 0,
        microsecond = 0\<rparr> = ''2025-05-01T00:00:00Z''"
    "isoformat_Z \<lparr>year = 2025, month = 7, day = 8, hour = 12, minute = 3, second = 4,
        microsecond = 0\<rparr> = ''2025-07-08T12:03:04Z''"
    by (simp_all add: render_defs)
  show ?thesis
    using prune_candidate_iff_strictly_older [OF example_manifest_distinct old o1 o2 example_cutoff,
        where E = "example_env 200 200" and dry_run = False and n = net0]
      prune_candidate_iff_strictly_older [OF example_manifest_distinct edge e1 e2 example_cutoff,
        where E = "example_env 200 200" and dry_run = False and n = net0]
      m f i
    by (simp add: py_get_def earlier_def example_utcnow_def)
qed

end
